theory Spec2Isabelle
  imports Complex_Main "HOL-Library.AList" "HOL-Library.Log_Nat" "HOL-Library.State_Monad"
begin

section \<open>Blind-spot detection for two-wheelers: tracker, threat classifier, alerting\<close>

text \<open>
  The development embeds the decision logic of \<^verbatim>\<open>src/main.py\<close> (classes
  \<^verbatim>\<open>VehicleTracker\<close>, \<^verbatim>\<open>AdaptiveBlindSpotZone\<close>, and the alerting part of
  \<^verbatim>\<open>AdvancedBlindSpotDetection.process_side_view\<close>) and of
  \<^verbatim>\<open>src/blind_spot_zones.py\<close> (class \<^verbatim>\<open>BlindSpotZone\<close>).

  Numbers. Pixel coordinates, frame sizes and identifiers are Python integers
  (\<open>int\<close>, \<open>nat\<close>); \<^verbatim>\<open>//\<close> is floor division, which is \<open>div\<close> on \<open>int\<close>.
  Python \<^verbatim>\<open>float\<close> values are IEEE doubles. A product of a decimal constant and
  an integer whose rounding decides a result (the thresholds \<^verbatim>\<open>int(0.35 * frame_width)\<close>
  of the constructors, the comparisons with \<^verbatim>\<open>0.7 * self.width\<close>) is modelled with its
  rounding: \<open>double_round\<close> rounds a rational to the nearest double, ties to even, and
  \<open>fmul\<close> is the double product (\<^verbatim>\<open>0.7 * 720\<close> is just below 504). Timestamps,
  velocities, the quotient \<^verbatim>\<open>bbox_height / self.height\<close> and the products
  \<^verbatim>\<open>0.15 * self.height\<close>, \<^verbatim>\<open>0.85 * self.height\<close>, \<^verbatim>\<open>0.2 * self.height\<close>,
  \<^verbatim>\<open>0.8 * self.height\<close> are modelled by \<open>rat\<close> without rounding: they are only
  compared, with integers or with constants, and the comparison of the doubles has the
  outcome of the comparison of the exact values on the sizes of video frames (computed
  for every height up to 20000 for the products and up to 3000 for the quotient;
  differences of clock readings and of half-integer centres are exact in doubles).
  The timestamps of the concrete runs below are dyadic.
  \<^verbatim>\<open>np.linalg.norm\<close> of a two-component difference is the square root of the sum of
  squares; the code only compares such distances with each other and with 100, so the
  model keeps the squared distance and compares squares.

  The dictionary \<^verbatim>\<open>self.tracks\<close> is an association list; \<open>update\<close> reads
  \<^verbatim>\<open>detections[best_match]\<close> with an index taken from the enumeration of the list and
  calls \<^verbatim>\<open>_update_track\<close> with a key of the dictionary, so neither access can fail
  (lemma \<open>update_accesses_in_range\<close>).

  Drawing (\<^verbatim>\<open>cv2\<close>), audio and the detector network are outside the model: the
  detections and the clock reading of a frame are inputs of \<open>process_side_view\<close>.
\<close>

subsection \<open>Errors the modelled code can raise\<close>

datatype error = IndexError | ZeroDivisionError

subsection \<open>Bounding boxes\<close>

type_synonym bbox = "int \<times> int \<times> int \<times> int"

text \<open>\<^verbatim>\<open>int(x)\<close> on a float truncates towards zero.\<close>

definition py_int :: "rat \<Rightarrow> int" where
  "py_int q = (if 0 \<le> q then \<lfloor>q\<rfloor> else \<lceil>q\<rceil>)"

subsection \<open>Doubles\<close>

text \<open>
  \<open>ilog2 a\<close> is the integer part of the binary logarithm of a positive rational.
  \<open>double_round\<close> is rounding to the nearest double with 53 bits of precision, a tie
  going to the even significand (no overflow and no subnormal numbers: the values here
  are pixel counts). \<open>float_lit p q\<close> is the double that the decimal literal with value
  \<open>p / q\<close> denotes, and \<open>fmul c n\<close> is \<^verbatim>\<open>c * n\<close> for a double \<open>c\<close> and a Python
  integer \<open>n\<close>, which is converted to a double first.
\<close>

definition ilog2 :: "rat \<Rightarrow> int" where
  "ilog2 a = (if 1 \<le> a then bitlen \<lfloor>a\<rfloor> - 1 else - bitlen (\<lceil>1 / a\<rceil> - 1))"

definition double_round :: "rat \<Rightarrow> rat" where
  "double_round q =
     (if q = 0 then 0
      else
        (let a = \<bar>q\<bar>;
             u = 2 powi (ilog2 a - 52);
             m = a / u;
             f = \<lfloor>m\<rfloor>;
             r = m - of_int f;
             n = (if r < 1 / 2 then f else if 1 / 2 < r then f + 1
                  else if even f then f else f + 1)
         in sgn q * of_int n * u))"

definition float_lit :: "int \<Rightarrow> int \<Rightarrow> rat" where
  "float_lit p q = double_round (of_int p / of_int q)"

definition fmul :: "rat \<Rightarrow> int \<Rightarrow> rat" where
  "fmul c n = double_round (c * double_round (of_int n))"

subsection \<open>Centres and distances\<close>

text \<open>\<^verbatim>\<open>np.array([b[0] + b[2]/2, b[1] + b[3]/2])\<close>: true division, a float centre.\<close>

fun center :: "bbox \<Rightarrow> rat \<times> rat" where
  "center (x, y, w, h) = (of_int x + of_int w / 2, of_int y + of_int h / 2)"

text \<open>The square of \<^verbatim>\<open>np.linalg.norm(a - b)\<close>.\<close>

fun norm_sq :: "rat \<times> rat \<Rightarrow> rat \<times> rat \<Rightarrow> rat" where
  "norm_sq (ax, ay) (bx, by) = (ax - bx) * (ax - bx) + (ay - by) * (ay - by)"

subsection \<open>AdaptiveBlindSpotZone\<close>

datatype side = Left | Right

datatype level = None_level | Safe | Warning | Critical

datatype lane = Opposite_lane | Same_lane

record zone =
  width :: int
  height :: int
  side :: side
  base_critical :: "int \<times> int"
  base_warning :: "int \<times> int"
  self_zone :: bbox
  lane_center :: int
  lane_width :: int

text \<open>
  \<^verbatim>\<open>__init__(frame_width, frame_height, side)\<close>. The source tests \<^verbatim>\<open>side == 'left'\<close>
  and treats every other value as the right side.
\<close>

definition AdaptiveBlindSpotZone :: "int \<Rightarrow> int \<Rightarrow> side \<Rightarrow> zone" where
  "AdaptiveBlindSpotZone frame_width frame_height sd =
     (if sd = Left then
        \<lparr> width = frame_width, height = frame_height, side = sd,
          base_critical = (0, py_int (fmul (float_lit 35 100) frame_width)),
          base_warning = (py_int (fmul (float_lit 35 100) frame_width),
                          py_int (fmul (float_lit 65 100) frame_width)),
          self_zone = (py_int (fmul (float_lit 7 10) frame_width),
                       py_int (fmul (float_lit 6 10) frame_height),
                       frame_width, frame_height),
          lane_center = frame_width div 2,
          lane_width = py_int (fmul (float_lit 3 10) frame_width) \<rparr>
      else
        \<lparr> width = frame_width, height = frame_height, side = sd,
          base_critical = (py_int (fmul (float_lit 65 100) frame_width), frame_width),
          base_warning = (py_int (fmul (float_lit 35 100) frame_width),
                          py_int (fmul (float_lit 65 100) frame_width)),
          self_zone = (0, py_int (fmul (float_lit 6 10) frame_height),
                       py_int (fmul (float_lit 3 10) frame_width), frame_height),
          lane_center = frame_width div 2,
          lane_width = py_int (fmul (float_lit 3 10) frame_width) \<rparr>)"

text \<open>\<^verbatim>\<open>_is_in_self_zone(bbox)\<close>: the centre, with floor division, against the rectangle.\<close>

fun is_in_self_zone :: "zone \<Rightarrow> bbox \<Rightarrow> bool" where
  "is_in_self_zone z (x, y, w, h) =
     (let center_x = x + w div 2;
          center_y = y + h div 2
      in case self_zone z of (sz_x1, sz_y1, sz_x2, sz_y2) \<Rightarrow>
           if (sz_x1 \<le> center_x \<and> center_x \<le> sz_x2) \<and> (sz_y1 \<le> center_y \<and> center_y \<le> sz_y2)
           then True else False)"

text \<open>\<^verbatim>\<open>_analyze_lane_position(center_x, velocity)\<close>.\<close>

fun analyze_lane_position :: "zone \<Rightarrow> int \<Rightarrow> rat \<times> rat \<Rightarrow> lane" where
  "analyze_lane_position z center_x (vx, vy) =
     (if side z = Left then
        (if of_int center_x > fmul (float_lit 7 10) (width z) \<and> vx < - 5
         then Opposite_lane else Same_lane)
      else
        (if of_int center_x < fmul (float_lit 3 10) (width z) \<and> vx > 5
         then Opposite_lane else Same_lane))"

text \<open>
  \<^verbatim>\<open>_analyze_motion(bbox, velocity)\<close>. The source also computes
  \<^verbatim>\<open>speed = np.sqrt(vx**2 + vy**2)\<close> and never reads it. An approaching vehicle
  outside both bands falls through to the last \<^verbatim>\<open>return\<close>.
\<close>

fun analyze_motion :: "zone \<Rightarrow> bbox \<Rightarrow> rat \<times> rat \<Rightarrow> level \<times> string" where
  "analyze_motion z (x, y, w, h) (vx, vy) =
     (let center_x = x + w div 2 in
      if side z = Left then
        (if vx < - 3 then
           (if center_x < snd (base_critical z) then (Critical, ''Fast approach in blind spot'')
            else if center_x < snd (base_warning z) then (Warning, ''Approaching blind spot'')
            else (Safe, ''No immediate threat''))
         else if vx > 3 then (Safe, ''Moving away'')
         else
           (if center_x < snd (base_critical z) then (Critical, ''Parallel in blind spot'')
            else if center_x < snd (base_warning z) then (Warning, ''Parallel nearby'')
            else (Safe, ''No immediate threat'')))
      else
        (if vx > 3 then
           (if center_x > fst (base_critical z) then (Critical, ''Fast approach in blind spot'')
            else if center_x > fst (base_warning z) then (Warning, ''Approaching blind spot'')
            else (Safe, ''No immediate threat''))
         else if vx < - 3 then (Safe, ''Moving away'')
         else
           (if center_x > fst (base_critical z) then (Critical, ''Parallel in blind spot'')
            else if center_x > fst (base_warning z) then (Warning, ''Parallel nearby'')
            else (Safe, ''No immediate threat''))))"

text \<open>
  \<^verbatim>\<open>_analyze_distance(bbox_height)\<close>: \<^verbatim>\<open>bbox_height / self.height\<close> raises
  \<^verbatim>\<open>ZeroDivisionError\<close> on a frame of height 0.
\<close>

definition analyze_distance :: "zone \<Rightarrow> int \<Rightarrow> error + level" where
  "analyze_distance z bbox_height =
     (if height z = 0 then Inl ZeroDivisionError
      else
        (let height_ratio = (of_int bbox_height :: rat) / of_int (height z) in
         if height_ratio > 45 / 100 then Inr Critical
         else if height_ratio > 3 / 10 then Inr Warning
         else Inr Safe))"

subsection \<open>Tracked vehicles\<close>

text \<open>
  A dictionary built by \<^verbatim>\<open>_get_tracked_vehicles\<close>. The key \<^verbatim>\<open>'positions'\<close> is
  present only when the track has two or more history entries.
\<close>

record vehicle =
  veh_id :: nat
  veh_bbox :: bbox
  veh_class :: nat
  velocity :: "rat \<times> rat"
  history_length :: nat
  veh_positions :: "bbox list option"

text \<open>
  \<^verbatim>\<open>classify_threat(tracked_vehicle, frame)\<close>. The frame is an argument the body
  never reads; it is kept as an argument of any type.
\<close>

definition classify_threat :: "zone \<Rightarrow> vehicle \<Rightarrow> 'frame \<Rightarrow> error + (level \<times> string)" where
  "classify_threat z tracked_vehicle frame =
     (let bbox = veh_bbox tracked_vehicle;
          vel = velocity tracked_vehicle
      in case bbox of (x, y, w, h) \<Rightarrow>
        (let center_x = x + w div 2;
             center_y = y + h div 2
         in
         if is_in_self_zone z bbox then Inr (None_level, ''In self-vehicle zone'')
         else if (of_int center_y :: rat) < 15 / 100 * of_int (height z)
                 \<or> (of_int center_y :: rat) > 85 / 100 * of_int (height z)
           then Inr (None_level, ''Out of ROI (vertical)'')
         else if analyze_lane_position z center_x vel = Opposite_lane
           then Inr (None_level, ''Opposite lane traffic'')
         else
           (case analyze_distance z h of
              Inl e \<Rightarrow> Inl e
            | Inr distance_threat \<Rightarrow>
               (case analyze_motion z bbox vel of (motion_threat, reason) \<Rightarrow>
                  if distance_threat = Safe then Inr (Safe, ''Distant vehicle'')
                  else if motion_threat = None_level then Inr (None_level, reason)
                  else if motion_threat = Critical \<or> distance_threat = Critical
                    then Inr (Critical,
                              if distance_threat = Critical then ''Very close'' else reason)
                  else if motion_threat = Warning \<or> distance_threat = Warning
                    then Inr (Warning,
                              if distance_threat = Warning \<and> motion_threat = Safe
                              then ''Moderately close'' else reason)
                  else Inr (Safe, ''No immediate threat'')))))"

subsection \<open>The call of \<open>classify_threat\<close> with its effects\<close>

text \<open>
  The three objects a call \<^verbatim>\<open>self.classify_threat(tracked_vehicle, frame)\<close> can reach
  through its arguments: the zone instance \<^verbatim>\<open>self\<close>, the dictionary
  \<^verbatim>\<open>tracked_vehicle\<close> and the array \<^verbatim>\<open>frame\<close>. The methods are state transformers
  on them: a read of an attribute of \<^verbatim>\<open>self\<close> or of a key of the dictionary returns
  the value and the objects as they are, an assignment would return changed objects.
  The bodies follow the source statement by statement; none of them assigns.
\<close>

record 'f objects =
  self_obj :: zone
  tracked_vehicle_obj :: vehicle
  frame_obj :: 'f

definition read_self :: "(zone \<Rightarrow> 'a) \<Rightarrow> ('f objects, 'a) state" where
  "read_self attr = State (\<lambda>h. (attr (self_obj h), h))"

definition read_vehicle :: "(vehicle \<Rightarrow> 'a) \<Rightarrow> ('f objects, 'a) state" where
  "read_vehicle key = State (\<lambda>h. (key (tracked_vehicle_obj h), h))"

definition is_in_self_zone_call :: "bbox \<Rightarrow> ('f objects, bool) state" where
  "is_in_self_zone_call bbox = do {
     sz \<leftarrow> read_self self_zone;
     State_Monad.return
       (case bbox of (x, y, w, h) \<Rightarrow>
          (let center_x = x + w div 2;
               center_y = y + h div 2
           in case sz of (sz_x1, sz_y1, sz_x2, sz_y2) \<Rightarrow>
                if (sz_x1 \<le> center_x \<and> center_x \<le> sz_x2) \<and> (sz_y1 \<le> center_y \<and> center_y \<le> sz_y2)
                then True else False))
   }"

definition analyze_lane_position_call :: "int \<Rightarrow> rat \<times> rat \<Rightarrow> ('f objects, lane) state" where
  "analyze_lane_position_call center_x vel = do {
     z \<leftarrow> read_self (\<lambda>z. z);
     State_Monad.return (analyze_lane_position z center_x vel)
   }"

definition analyze_distance_call :: "int \<Rightarrow> ('f objects, error + level) state" where
  "analyze_distance_call bbox_height = do {
     hgt \<leftarrow> read_self height;
     State_Monad.return
       (if hgt = 0 then Inl ZeroDivisionError
        else
          (let height_ratio = (of_int bbox_height :: rat) / of_int hgt in
           if height_ratio > 45 / 100 then Inr Critical
           else if height_ratio > 3 / 10 then Inr Warning
           else Inr Safe))
   }"

definition analyze_motion_call :: "bbox \<Rightarrow> rat \<times> rat \<Rightarrow> ('f objects, level \<times> string) state" where
  "analyze_motion_call bbox vel = do {
     z \<leftarrow> read_self (\<lambda>z. z);
     State_Monad.return (analyze_motion z bbox vel)
   }"

definition classify_threat_call :: "('f objects, error + (level \<times> string)) state" where
  "classify_threat_call = do {
     bbox \<leftarrow> read_vehicle veh_bbox;
     vel \<leftarrow> read_vehicle velocity;
     case bbox of (x, y, w, h) \<Rightarrow>
       (let center_x = x + w div 2;
            center_y = y + h div 2
        in do {
          in_self \<leftarrow> is_in_self_zone_call bbox;
          if in_self then State_Monad.return (Inr (None_level, ''In self-vehicle zone''))
          else do {
            hgt \<leftarrow> read_self height;
            if (of_int center_y :: rat) < 15 / 100 * of_int hgt
               \<or> (of_int center_y :: rat) > 85 / 100 * of_int hgt
            then State_Monad.return (Inr (None_level, ''Out of ROI (vertical)''))
            else do {
              lane_status \<leftarrow> analyze_lane_position_call center_x vel;
              if lane_status = Opposite_lane
              then State_Monad.return (Inr (None_level, ''Opposite lane traffic''))
              else do {
                d \<leftarrow> analyze_distance_call h;
                case d of
                  Inl e \<Rightarrow> State_Monad.return (Inl e)
                | Inr distance_threat \<Rightarrow> do {
                    (motion_threat, reason) \<leftarrow> analyze_motion_call bbox vel;
                    State_Monad.return
                      (if distance_threat = Safe then Inr (Safe, ''Distant vehicle'')
                       else if motion_threat = None_level then Inr (None_level, reason)
                       else if motion_threat = Critical \<or> distance_threat = Critical
                         then Inr (Critical,
                                   if distance_threat = Critical then ''Very close'' else reason)
                       else if motion_threat = Warning \<or> distance_threat = Warning
                         then Inr (Warning,
                                   if distance_threat = Warning \<and> motion_threat = Safe
                                   then ''Moderately close'' else reason)
                       else Inr (Safe, ''No immediate threat''))
                  }
              }
            }
          }
        })
   }"

subsection \<open>BlindSpotZone, the static variant\<close>

record static_zone =
  bz_width :: int
  bz_height :: int
  bz_side :: side
  critical_zone :: "int \<times> int"
  warning_zone :: "int \<times> int"
  safe_zone :: "int \<times> int"

definition BlindSpotZone :: "int \<Rightarrow> int \<Rightarrow> side \<Rightarrow> static_zone" where
  "BlindSpotZone frame_width frame_height sd =
     (if sd = Left then
        \<lparr> bz_width = frame_width, bz_height = frame_height, bz_side = sd,
          critical_zone = (0, py_int (fmul (float_lit 4 10) frame_width)),
          warning_zone = (py_int (fmul (float_lit 4 10) frame_width),
                          py_int (fmul (float_lit 7 10) frame_width)),
          safe_zone = (py_int (fmul (float_lit 7 10) frame_width), frame_width) \<rparr>
      else
        \<lparr> bz_width = frame_width, bz_height = frame_height, bz_side = sd,
          critical_zone = (py_int (fmul (float_lit 6 10) frame_width), frame_width),
          warning_zone = (py_int (fmul (float_lit 3 10) frame_width),
                          py_int (fmul (float_lit 6 10) frame_width)),
          safe_zone = (0, py_int (fmul (float_lit 3 10) frame_width)) \<rparr>)"

text \<open>
  \<^verbatim>\<open>get_zone(bbox)\<close>. The vertical test reads \<^verbatim>\<open>y\<close>, the top edge of the box;
  only the horizontal coordinate is a centre.
\<close>

fun get_zone :: "static_zone \<Rightarrow> bbox \<Rightarrow> level" where
  "get_zone z (x, y, w, h) =
     (let center_x = x + w div 2 in
      if (of_int y :: rat) < 2 / 10 * of_int (bz_height z)
         \<or> (of_int y :: rat) > 8 / 10 * of_int (bz_height z)
      then None_level
      else if bz_side z = Left then
        (if center_x \<le> snd (critical_zone z) then Critical
         else if center_x \<le> snd (warning_zone z) then Warning
         else Safe)
      else
        (if center_x \<ge> fst (critical_zone z) then Critical
         else if center_x \<ge> fst (warning_zone z) then Warning
         else Safe))"

subsection \<open>VehicleTracker\<close>

text \<open>
  A detection as the detector returns it: \<^verbatim>\<open>{'bbox': [x, y, w, h], 'confidence': c,
  'class_id': k}\<close>.
\<close>

record detection =
  det_bbox :: bbox
  det_confidence :: rat
  det_class_id :: nat

text \<open>
  \<^verbatim>\<open>collections.deque\<close> with a \<^verbatim>\<open>maxlen\<close>: the bound belongs to the deque, fixed
  when it is built. \<^verbatim>\<open>append\<close> adds on the right and, when the length then exceeds
  \<^verbatim>\<open>maxlen\<close>, drops one element on the left. \<^verbatim>\<open>deque(xs, maxlen)\<close> appends the
  elements of \<^verbatim>\<open>xs\<close> one by one.
\<close>

datatype 'a deque = Deque (maxlen: nat) (items: "'a list")

definition deque_append :: "'a deque \<Rightarrow> 'a \<Rightarrow> 'a deque" where
  "deque_append d x =
     (let ys = items d @ [x]
      in Deque (maxlen d) (if length ys > maxlen d then tl ys else ys))"

definition deque_init :: "'a list \<Rightarrow> nat \<Rightarrow> 'a deque" where
  "deque_init xs n = foldl deque_append (Deque n []) xs"

text \<open>A value of the dictionary \<^verbatim>\<open>self.tracks\<close>.\<close>

record track =
  positions :: "bbox deque"
  last_seen :: rat
  track_class :: nat
  track_confidence :: rat

text \<open>
  The tracker object. \<^verbatim>\<open>self.tracks\<close> is a Python dictionary, which iterates in
  insertion order: an association list with distinct keys, a new key added at the end
  and an existing key overwritten in place (\<open>AList.update\<close>).
\<close>

record tracker =
  tracks :: "(nat \<times> track) list"
  next_id :: nat
  max_history :: nat
  max_disappeared :: rat

definition VehicleTracker :: "nat \<Rightarrow> tracker" where
  "VehicleTracker mh = \<lparr> tracks = [], next_id = 0, max_history = mh, max_disappeared = 1 \<rparr>"

text \<open>\<^verbatim>\<open>_create_track(detection, current_time)\<close>.\<close>

definition create_track :: "tracker \<Rightarrow> detection \<Rightarrow> rat \<Rightarrow> tracker" where
  "create_track s det current_time =
     s\<lparr> tracks := AList.update (next_id s)
                    \<lparr> positions = deque_init [det_bbox det] (max_history s),
                      last_seen = current_time,
                      track_class = det_class_id det,
                      track_confidence = det_confidence det \<rparr>
                    (tracks s),
        next_id := next_id s + 1 \<rparr>"

text \<open>
  \<^verbatim>\<open>_update_track(track_id, detection, current_time)\<close>. The class of the track is
  not written. \<open>update\<close> calls it only with the key of a live track.
\<close>

definition update_track :: "tracker \<Rightarrow> nat \<Rightarrow> detection \<Rightarrow> rat \<Rightarrow> tracker" where
  "update_track s track_id det current_time =
     s\<lparr> tracks := AList.map_entry track_id
                    (\<lambda>t. t\<lparr> positions := deque_append (positions t) (det_bbox det),
                             last_seen := current_time,
                             track_confidence := det_confidence det \<rparr>)
                    (tracks s) \<rparr>"

text \<open>
  The inner loop of \<open>update\<close> (lines 58 to 75): the nearest detection not yet matched,
  within the matching radius. \<open>min_dist\<close> is \<open>None\<close> for \<^verbatim>\<open>float('inf')\<close> and holds
  the squared distance otherwise; \<^verbatim>\<open>dist < 100\<close> is the comparison of the squares.
\<close>

fun closest :: "rat \<times> rat \<Rightarrow> nat set \<Rightarrow> (nat \<times> detection) list
                  \<Rightarrow> rat option \<times> nat option \<Rightarrow> rat option \<times> nat option" where
  "closest last_center matched [] (min_dist, best_match) = (min_dist, best_match)"
| "closest last_center matched ((i, det) # rest) (min_dist, best_match) =
     (if i \<in> matched then closest last_center matched rest (min_dist, best_match)
      else
        (let dist = norm_sq last_center (center (det_bbox det)) in
         if (case min_dist of None \<Rightarrow> True | Some m \<Rightarrow> dist < m) \<and> dist < 100 * 100
         then closest last_center matched rest (Some dist, Some i)
         else closest last_center matched rest (min_dist, best_match)))"

text \<open>
  The loop over \<^verbatim>\<open>list(self.tracks.items())\<close> (lines 47 to 83): the first argument
  is the snapshot taken before the loop, the state holds the dictionary the loop mutates.
  A track object is changed at its own iteration only, so the snapshot's entry is the
  live one when it is read.
\<close>

fun match_tracks :: "(nat \<times> track) list \<Rightarrow> detection list \<Rightarrow> rat
                       \<Rightarrow> tracker \<times> nat set \<Rightarrow> tracker \<times> nat set" where
  "match_tracks [] detections current_time (s, matched) = (s, matched)"
| "match_tracks ((tid, trk) # rest) detections current_time (s, matched) =
     (if length (items (positions trk)) = 0
      then match_tracks rest detections current_time (s, matched)
      else
        (let last_pos = last (items (positions trk));
             last_center = center last_pos
         in case closest last_center matched (enumerate 0 detections) (None, None) of
              (min_dist, Some best_match) \<Rightarrow>
                match_tracks rest detections current_time
                  (update_track s tid (detections ! best_match) current_time,
                   insert best_match matched)
            | (min_dist, None) \<Rightarrow>
                if current_time - last_seen trk > max_disappeared s
                then match_tracks rest detections current_time
                       (s\<lparr> tracks := AList.delete tid (tracks s) \<rparr>, matched)
                else match_tracks rest detections current_time (s, matched)))"

text \<open>The loop of lines 86 to 88: a new track for each detection not matched.\<close>

fun create_unmatched :: "(nat \<times> detection) list \<Rightarrow> nat set \<Rightarrow> rat \<Rightarrow> tracker \<Rightarrow> tracker" where
  "create_unmatched [] matched current_time s = s"
| "create_unmatched ((i, det) # rest) matched current_time s =
     (if i \<notin> matched
      then create_unmatched rest matched current_time (create_track s det current_time)
      else create_unmatched rest matched current_time s)"

text \<open>The loop of lines 41 and 42: a new track for every detection.\<close>

fun create_all :: "detection list \<Rightarrow> rat \<Rightarrow> tracker \<Rightarrow> tracker" where
  "create_all [] current_time s = s"
| "create_all (det # rest) current_time s =
     create_all rest current_time (create_track s det current_time)"

text \<open>
  One entry of \<^verbatim>\<open>_get_tracked_vehicles\<close>. With fewer than two positions the source
  reads \<^verbatim>\<open>track['positions'][-1]\<close>, which raises \<^verbatim>\<open>IndexError\<close> on an empty
  deque (a tracker built with \<^verbatim>\<open>max_history=0\<close>).
\<close>

definition tracked_entry :: "nat \<times> track \<Rightarrow> error + vehicle" where
  "tracked_entry e =
     (case e of (tid, trk) \<Rightarrow>
        (let ps = items (positions trk) in
         if length ps < 2 then
           (if ps = [] then Inl IndexError
            else Inr \<lparr> veh_id = tid, veh_bbox = last ps, veh_class = track_class trk,
                       velocity = (0, 0), history_length = length ps,
                       veh_positions = None \<rparr>)
         else
           (let curr = last ps;
                prev = ps ! (length ps - 2);
                curr_center = center curr;
                prev_center = center prev;
                vel = (fst curr_center - fst prev_center, snd curr_center - snd prev_center)
            in Inr \<lparr> veh_id = tid, veh_bbox = curr, veh_class = track_class trk,
                      velocity = vel, history_length = length ps,
                      veh_positions = Some ps \<rparr>)))"

fun tracked_loop :: "(nat \<times> track) list \<Rightarrow> vehicle list \<Rightarrow> error + vehicle list" where
  "tracked_loop [] tracked = Inr tracked"
| "tracked_loop (e # rest) tracked =
     (case tracked_entry e of
        Inl err \<Rightarrow> Inl err
      | Inr v \<Rightarrow> tracked_loop rest (tracked @ [v]))"

definition get_tracked_vehicles :: "tracker \<Rightarrow> error + vehicle list" where
  "get_tracked_vehicles s = tracked_loop (tracks s) []"

text \<open>
  \<^verbatim>\<open>update(detections, current_time)\<close>: the tracker after the call, and what the
  call returns or raises.
\<close>

definition update :: "tracker \<Rightarrow> detection list \<Rightarrow> rat \<Rightarrow> tracker \<times> (error + vehicle list)" where
  "update s detections current_time =
     (if length detections = 0 then
        (s\<lparr> tracks := filter (\<lambda>(tid, trk). current_time - last_seen trk < max_disappeared s)
                         (tracks s) \<rparr>,
         Inr [])
      else
        (let s' =
           (if length (tracks s) = 0 then create_all detections current_time s
            else
              (case match_tracks (tracks s) detections current_time (s, {}) of
                 (s1, matched) \<Rightarrow>
                   create_unmatched (enumerate 0 detections) matched current_time s1))
         in (s', get_tracked_vehicles s')))"

text \<open>A sequence of calls on one tracker, whatever each call returned.\<close>

fun updates :: "tracker \<Rightarrow> (detection list \<times> rat) list \<Rightarrow> tracker" where
  "updates s [] = s"
| "updates s ((detections, current_time) # calls) =
     updates (fst (update s detections current_time)) calls"

subsection \<open>The tracker's dictionary as an association list\<close>

text \<open>
  The identifiers in use, and the condition under which an association list stands for
  the dictionary of a tracker: the keys are distinct, every key is below \<open>next_id\<close>, and
  every history is a deque of the tracker's capacity that holds no more than it.
\<close>

definition track_ids :: "tracker \<Rightarrow> nat set" where
  "track_ids s = fst ` set (tracks s)"

definition track_ok :: "nat \<Rightarrow> nat \<Rightarrow> nat \<times> track \<Rightarrow> bool" where
  "track_ok n mh e = (fst e < n \<and> maxlen (positions (snd e)) = mh
                      \<and> length (items (positions (snd e))) \<le> mh)"

definition tracker_inv :: "tracker \<Rightarrow> bool" where
  "tracker_inv s = (distinct (map fst (tracks s))
                    \<and> list_all (track_ok (next_id s) (max_history s)) (tracks s))"

text \<open>
  The loop over the tracks once more, with the two accesses that Python checks at run
  time made explicit: \<open>None\<close> stands for the \<^verbatim>\<open>IndexError\<close> of
  \<^verbatim>\<open>detections[best_match]\<close> and the \<^verbatim>\<open>KeyError\<close> of \<^verbatim>\<open>self.tracks[track_id]\<close>.
  It is shown below to agree with \<open>match_tracks\<close> on every dictionary.
\<close>

fun match_tracks_checked :: "(nat \<times> track) list \<Rightarrow> detection list \<Rightarrow> rat
                       \<Rightarrow> tracker \<times> nat set \<Rightarrow> (tracker \<times> nat set) option" where
  "match_tracks_checked [] detections current_time (s, matched) = Some (s, matched)"
| "match_tracks_checked ((tid, trk) # rest) detections current_time (s, matched) =
     (if length (items (positions trk)) = 0
      then match_tracks_checked rest detections current_time (s, matched)
      else
        (let last_pos = last (items (positions trk));
             last_center = center last_pos
         in case closest last_center matched (enumerate 0 detections) (None, None) of
              (min_dist, Some best_match) \<Rightarrow>
                if best_match < length detections \<and> tid \<in> track_ids s
                then match_tracks_checked rest detections current_time
                       (update_track s tid (detections ! best_match) current_time,
                        insert best_match matched)
                else None
            | (min_dist, None) \<Rightarrow>
                if current_time - last_seen trk > max_disappeared s
                then match_tracks_checked rest detections current_time
                       (s\<lparr> tracks := AList.delete tid (tracks s) \<rparr>, matched)
                else match_tracks_checked rest detections current_time (s, matched)))"

text \<open>The dictionary value that \<open>create_track\<close> stores.\<close>

definition new_track :: "tracker \<Rightarrow> detection \<Rightarrow> rat \<Rightarrow> track" where
  "new_track s det now =
     \<lparr> positions = deque_init [det_bbox det] (max_history s), last_seen = now,
       track_class = det_class_id det, track_confidence = det_confidence det \<rparr>"

text \<open>The dictionary value that \<open>update_track\<close> leaves for a track it is called on.\<close>

definition appended :: "track \<Rightarrow> detection \<Rightarrow> rat \<Rightarrow> track" where
  "appended t det now =
     t\<lparr> positions := deque_append (positions t) (det_bbox det), last_seen := now,
        track_confidence := det_confidence det \<rparr>"

subsection \<open>AdvancedBlindSpotDetection: per-frame aggregation and alerting\<close>

text \<open>The level \<^verbatim>\<open>trigger_warning\<close> is called with.\<close>

datatype alert = CRITICAL | WARNING

record detector =
  trackers :: "side \<Rightarrow> tracker"
  last_warning_time :: "side \<Rightarrow> rat"
  warning_cooldown :: rat

definition AdvancedBlindSpotDetection :: detector where
  "AdvancedBlindSpotDetection =
     \<lparr> trackers = (\<lambda>sd. VehicleTracker 10),
       last_warning_time = (\<lambda>sd. 0),
       warning_cooldown = 3 / 2 \<rparr>"

text \<open>
  The loop of lines 510 to 525 over the tracked vehicles; the pair is
  \<open>(critical_detected, warning_detected)\<close>. The list \<^verbatim>\<open>threat_vehicles\<close> feeds the
  drawing code only.
\<close>

fun classify_all :: "zone \<Rightarrow> 'frame \<Rightarrow> vehicle list \<Rightarrow> bool \<times> bool \<Rightarrow> error + (bool \<times> bool)" where
  "classify_all z frame [] (critical_detected, warning_detected) =
     Inr (critical_detected, warning_detected)"
| "classify_all z frame (v # vs) (critical_detected, warning_detected) =
     (case classify_threat z v frame of
        Inl e \<Rightarrow> Inl e
      | Inr (threat_level, reason) \<Rightarrow>
          if threat_level = None_level
          then classify_all z frame vs (critical_detected, warning_detected)
          else if threat_level = Critical
          then classify_all z frame vs (True, warning_detected)
          else if threat_level = Warning
          then classify_all z frame vs (critical_detected, True)
          else classify_all z frame vs (critical_detected, warning_detected))"

text \<open>
  Lines 569 to 574: the alert of this frame, if one fires, and the timestamps after it.
\<close>

definition trigger_warnings :: "detector \<Rightarrow> side \<Rightarrow> rat \<Rightarrow> bool \<Rightarrow> bool \<Rightarrow> detector \<times> alert option" where
  "trigger_warnings d sd current_time critical_detected warning_detected =
     (if critical_detected \<and> current_time - last_warning_time d sd > warning_cooldown d
      then (d\<lparr> last_warning_time := (last_warning_time d)(sd := current_time) \<rparr>, Some CRITICAL)
      else if warning_detected \<and> current_time - last_warning_time d sd > warning_cooldown d
      then (d\<lparr> last_warning_time := (last_warning_time d)(sd := current_time) \<rparr>, Some WARNING)
      else (d, None))"

text \<open>
  \<^verbatim>\<open>process_side_view(frame, side, adaptive_zone)\<close>, with the detections of the frame
  and the reading of \<^verbatim>\<open>time.time()\<close> as inputs. The result is the detector after the
  call and either the exception raised or \<open>(critical_detected, warning_detected)\<close> with
  the alert fired.
\<close>

definition process_side_view ::
  "detector \<Rightarrow> detection list \<Rightarrow> rat \<Rightarrow> 'frame \<Rightarrow> side \<Rightarrow> zone
     \<Rightarrow> detector \<times> (error + (bool \<times> bool \<times> alert option))" where
  "process_side_view d detections current_time frame sd adaptive_zone =
     (case update (trackers d sd) detections current_time of
        (tr, res) \<Rightarrow>
          (let d1 = d\<lparr> trackers := (trackers d)(sd := tr) \<rparr> in
           case res of
             Inl e \<Rightarrow> (d1, Inl e)
           | Inr tracked_vehicles \<Rightarrow>
               (case classify_all adaptive_zone frame tracked_vehicles (False, False) of
                  Inl e \<Rightarrow> (d1, Inl e)
                | Inr (critical_detected, warning_detected) \<Rightarrow>
                    (case trigger_warnings d1 sd current_time critical_detected warning_detected of
                       (d2, fired) \<Rightarrow>
                         (d2, Inr (critical_detected, warning_detected, fired))))))"

section \<open>Properties\<close>

subsection \<open>The zones of the frame sizes used below\<close>

text \<open>
  On a width of 800 and heights of 600 and 400 every double product of the constructors
  is a whole number, the exact product.
\<close>

lemma products_800:
  "py_int (fmul (float_lit 35 100) 800) = 280"
  "py_int (fmul (float_lit 65 100) 800) = 520"
  "py_int (fmul (float_lit 7 10) 800) = 560"
  "py_int (fmul (float_lit 3 10) 800) = 240"
  "py_int (fmul (float_lit 4 10) 800) = 320"
  "py_int (fmul (float_lit 6 10) 800) = 480"
  "py_int (fmul (float_lit 6 10) 600) = 360"
  "py_int (fmul (float_lit 6 10) 400) = 240"
  by code_simp+

lemma lane_thresholds_800:
  "fmul (float_lit 7 10) 800 = 560"
  "fmul (float_lit 3 10) 800 = 240"
  by code_simp+

lemma zone_800_600_left:
  "AdaptiveBlindSpotZone 800 600 Left =
     \<lparr> width = 800, height = 600, side = Left, base_critical = (0, 280),
       base_warning = (280, 520), self_zone = (560, 360, 800, 600),
       lane_center = 400, lane_width = 240 \<rparr>"
  by (simp add: AdaptiveBlindSpotZone_def products_800)

lemma zone_800_400_left:
  "AdaptiveBlindSpotZone 800 400 Left =
     \<lparr> width = 800, height = 400, side = Left, base_critical = (0, 280),
       base_warning = (280, 520), self_zone = (560, 240, 800, 400),
       lane_center = 400, lane_width = 240 \<rparr>"
  by (simp add: AdaptiveBlindSpotZone_def products_800)

lemma static_zone_800_600_left:
  "BlindSpotZone 800 600 Left =
     \<lparr> bz_width = 800, bz_height = 600, bz_side = Left, critical_zone = (0, 320),
       warning_zone = (320, 560), safe_zone = (560, 800) \<rparr>"
  by (simp add: BlindSpotZone_def products_800)

subsection \<open>The threat classifier\<close>

text \<open>
  C1. A tracked vehicle whose bbox centre \<open>(x + w div 2, y + h div 2)\<close> lies inside the
  self-exclusion rectangle of the zone is classified \<open>none\<close> with the reason
  \<open>In self-vehicle zone\<close>. Nothing is assumed about the velocity, the size of the box
  or the rest of the zone (not even a non-zero frame height, on which the distance rule
  would raise): the check comes before the region of interest, the lane position, the
  distance and the motion rules.
\<close>

theorem self_zone_exclusion_first:
  assumes "veh_bbox v = (x, y, w, h)"
    and "self_zone z = (sz_x1, sz_y1, sz_x2, sz_y2)"
    and "sz_x1 \<le> x + w div 2" and "x + w div 2 \<le> sz_x2"
    and "sz_y1 \<le> y + h div 2" and "y + h div 2 \<le> sz_y2"
  shows "classify_threat z v frame = Inr (None_level, ''In self-vehicle zone'')"
  using assms by (simp add: classify_threat_def)

text \<open>
  A large box approaching fast, centred at \<open>(700, 445)\<close> in the self zone
  \<open>(560, 360, 800, 600)\<close> of the left camera on an 800 by 600 frame.
\<close>

theorem self_zone_exclusion_first_witness:
  "self_zone (AdaptiveBlindSpotZone 800 600 Left) = (560, 360, 800, 600)
   \<and> (560::int) \<le> 600 + 200 div 2 \<and> (600::int) + 200 div 2 \<le> 800
   \<and> (360::int) \<le> 300 + 290 div 2 \<and> (300::int) + 290 div 2 \<le> 600
   \<and> classify_threat (AdaptiveBlindSpotZone 800 600 Left)
        \<lparr> veh_id = 0, veh_bbox = (600, 300, 200, 290), veh_class = 2, velocity = (- 30, 0),
          history_length = 2, veh_positions = None \<rparr> ()
       = Inr (None_level, ''In self-vehicle zone'')"
proof -
  have sz: "self_zone (AdaptiveBlindSpotZone 800 600 Left) = (560, 360, 800, 600)"
    by (simp add: zone_800_600_left)
  show ?thesis
    using self_zone_exclusion_first
      [of "\<lparr> veh_id = 0, veh_bbox = (600, 300, 200, 290), veh_class = 2, velocity = (- 30, 0),
          history_length = 2, veh_positions = None \<rparr>" 600 300 200 290
          "AdaptiveBlindSpotZone 800 600 Left" 560 360 800 600 "()"] sz
    by simp
qed

lemma analyze_distance_safe:
  assumes "height z \<noteq> 0" and "(of_int h :: rat) / of_int (height z) \<le> 3 / 10"
  shows "analyze_distance z h = Inr Safe"
proof -
  define r where "r = (of_int h :: rat) / of_int (height z)"
  have "\<not> r > 45 / 100" and "\<not> r > 3 / 10"
    using assms(2) unfolding r_def by linarith+
  then show ?thesis
    using assms(1) unfolding analyze_distance_def Let_def r_def[symmetric] by simp
qed

text \<open>
  C2, as stated, fails: a small box (height 50 of 600) approaching fast in the critical
  band, centred above the region of interest, is classified \<open>none\<close>, not \<open>safe\<close>.
\<close>

theorem distance_dominance_counterexample:
  "(of_int 50 :: rat) / of_int (height (AdaptiveBlindSpotZone 800 600 Left)) \<le> 3 / 10
   \<and> classify_threat (AdaptiveBlindSpotZone 800 600 Left)
        \<lparr> veh_id = 0, veh_bbox = (100, 20, 60, 50), veh_class = 2, velocity = (- 30, 0),
          history_length = 2, veh_positions = None \<rparr> ()
       = Inr (None_level, ''Out of ROI (vertical)'')"
  by (simp add: classify_threat_def zone_800_600_left)

text \<open>
  C2, amended. A tracked vehicle that passes the three filters (its centre is outside
  the self zone, its vertical centre is within \<open>[0.15 H, 0.85 H]\<close>, its lane status is not
  \<open>opposite_lane\<close>) and whose height ratio \<open>h / H\<close> is at most \<open>0.30\<close> gets the distance
  threat \<open>safe\<close> and the final result \<open>(safe, Distant vehicle)\<close>, whatever its velocity
  and whatever the motion rule says.
\<close>

theorem distance_dominance:
  assumes "veh_bbox v = (x, y, w, h)"
    and "\<not> is_in_self_zone z (x, y, w, h)"
    and "15 / 100 * of_int (height z) \<le> (of_int (y + h div 2) :: rat)"
    and "(of_int (y + h div 2) :: rat) \<le> 85 / 100 * of_int (height z)"
    and "analyze_lane_position z (x + w div 2) (velocity v) \<noteq> Opposite_lane"
    and "height z \<noteq> 0"
    and "(of_int h :: rat) / of_int (height z) \<le> 3 / 10"
  shows "analyze_distance z h = Inr Safe
         \<and> classify_threat z v frame = Inr (Safe, ''Distant vehicle'')"
proof -
  have d: "analyze_distance z h = Inr Safe"
    using assms(6,7) by (rule analyze_distance_safe)
  obtain m r where mr: "analyze_motion z (x, y, w, h) (velocity v) = (m, r)"
    by (cases "analyze_motion z (x, y, w, h) (velocity v)")
  show ?thesis
    using assms(1-5) d mr
    by (simp add: classify_threat_def not_less
          del: is_in_self_zone.simps analyze_motion.simps analyze_lane_position.simps)
qed

text \<open>
  Height 50 on a frame of height 400, centred at \<open>(130, 225)\<close> in the critical band of
  the left camera, moving left by 30 pixels a frame: the motion rule alone says
  \<open>critical\<close>.
\<close>

theorem distance_dominance_witness:
  "\<not> is_in_self_zone (AdaptiveBlindSpotZone 800 400 Left) (100, 200, 60, 50)
   \<and> 15 / 100 * of_int (height (AdaptiveBlindSpotZone 800 400 Left))
        \<le> (of_int (200 + 50 div 2) :: rat)
   \<and> (of_int (200 + 50 div 2) :: rat)
        \<le> 85 / 100 * of_int (height (AdaptiveBlindSpotZone 800 400 Left))
   \<and> analyze_lane_position (AdaptiveBlindSpotZone 800 400 Left) (100 + 60 div 2) (- 30, 0)
        \<noteq> Opposite_lane
   \<and> height (AdaptiveBlindSpotZone 800 400 Left) \<noteq> 0
   \<and> (of_int 50 :: rat) / of_int (height (AdaptiveBlindSpotZone 800 400 Left)) \<le> 3 / 10
   \<and> fst (analyze_motion (AdaptiveBlindSpotZone 800 400 Left) (100, 200, 60, 50) (- 30, 0))
        = Critical
   \<and> classify_threat (AdaptiveBlindSpotZone 800 400 Left)
        \<lparr> veh_id = 0, veh_bbox = (100, 200, 60, 50), veh_class = 2, velocity = (- 30, 0),
          history_length = 2, veh_positions = None \<rparr> ()
       = Inr (Safe, ''Distant vehicle'')"
  using distance_dominance
    [of "\<lparr> veh_id = 0, veh_bbox = (100, 200, 60, 50), veh_class = 2, velocity = (- 30, 0),
          history_length = 2, veh_positions = None \<rparr>" 100 200 60 50
        "AdaptiveBlindSpotZone 800 400 Left" "()"]
  by (simp add: zone_800_400_left lane_thresholds_800)

text \<open>What a run of each method returns: the value of the pure function, the objects unchanged.\<close>

lemma run_read_self [simp]: "run_state (read_self attr) h = (attr (self_obj h), h)"
  by (simp add: read_self_def)

lemma run_read_vehicle [simp]: "run_state (read_vehicle key) h = (key (tracked_vehicle_obj h), h)"
  by (simp add: read_vehicle_def)

lemma run_is_in_self_zone_call [simp]:
  "run_state (is_in_self_zone_call bbox) h = (is_in_self_zone (self_obj h) bbox, h)"
  by (cases bbox) (simp add: is_in_self_zone_call_def)

lemma run_analyze_lane_position_call [simp]:
  "run_state (analyze_lane_position_call cx vel) h = (analyze_lane_position (self_obj h) cx vel, h)"
  by (simp add: analyze_lane_position_call_def)

lemma run_analyze_distance_call [simp]:
  "run_state (analyze_distance_call bh) h = (analyze_distance (self_obj h) bh, h)"
  by (simp add: analyze_distance_call_def analyze_distance_def)

lemma run_analyze_motion_call [simp]:
  "run_state (analyze_motion_call bbox vel) h = (analyze_motion (self_obj h) bbox vel, h)"
  by (simp add: analyze_motion_call_def)

lemma run_classify_threat_call:
  "run_state classify_threat_call h
     = (classify_threat (self_obj h) (tracked_vehicle_obj h) (frame_obj h), h)"
  unfolding classify_threat_call_def classify_threat_def
  by (cases "veh_bbox (tracked_vehicle_obj h)")
     (simp add: Let_def split: sum.splits prod.splits
        del: is_in_self_zone.simps analyze_motion.simps analyze_lane_position.simps)

text \<open>
  C10. Two calls of \<open>classify_threat\<close> on the same zone configuration, with vehicles
  that agree on the keys \<open>bbox\<close> and \<open>velocity\<close>, return the same pair (or raise the same
  error), whatever the frames and the other keys of the vehicles (id, class, history
  length, positions) are. Each call leaves the zone, the vehicle and the frame as it
  found them, so a second call finds the configuration of the first. The value returned
  is the one of the function \<open>classify_threat\<close>, which the other theorems are about.
\<close>

theorem classify_threat_reads_bbox_velocity:
  assumes "self_obj h1 = self_obj h2"
    and "veh_bbox (tracked_vehicle_obj h1) = veh_bbox (tracked_vehicle_obj h2)"
    and "velocity (tracked_vehicle_obj h1) = velocity (tracked_vehicle_obj h2)"
  shows "fst (run_state classify_threat_call h1) = fst (run_state classify_threat_call h2)
       \<and> snd (run_state classify_threat_call h1) = h1
       \<and> snd (run_state classify_threat_call h2) = h2
       \<and> fst (run_state classify_threat_call h1)
           = classify_threat (self_obj h1) (tracked_vehicle_obj h1) (frame_obj h1)"
  using assms by (simp add: run_classify_threat_call classify_threat_def)

theorem classify_threat_reads_bbox_velocity_witness:
  "run_state classify_threat_call
      \<lparr> self_obj = AdaptiveBlindSpotZone 800 600 Left,
        tracked_vehicle_obj =
          \<lparr> veh_id = 0, veh_bbox = (100, 300, 60, 200), veh_class = 2, velocity = (- 30, 0),
            history_length = 2,
            veh_positions = Some [(130, 300, 60, 200), (100, 300, 60, 200)] \<rparr>,
        frame_obj = ''frame 1'' \<rparr>
     = (Inr (Critical, ''Fast approach in blind spot''),
        \<lparr> self_obj = AdaptiveBlindSpotZone 800 600 Left,
          tracked_vehicle_obj =
            \<lparr> veh_id = 0, veh_bbox = (100, 300, 60, 200), veh_class = 2, velocity = (- 30, 0),
              history_length = 2,
              veh_positions = Some [(130, 300, 60, 200), (100, 300, 60, 200)] \<rparr>,
          frame_obj = ''frame 1'' \<rparr>)
   \<and> run_state classify_threat_call
      \<lparr> self_obj = AdaptiveBlindSpotZone 800 600 Left,
        tracked_vehicle_obj =
          \<lparr> veh_id = 7, veh_bbox = (100, 300, 60, 200), veh_class = 5, velocity = (- 30, 0),
            history_length = 9, veh_positions = None \<rparr>,
        frame_obj = ''frame 2'' \<rparr>
     = (Inr (Critical, ''Fast approach in blind spot''),
        \<lparr> self_obj = AdaptiveBlindSpotZone 800 600 Left,
          tracked_vehicle_obj =
            \<lparr> veh_id = 7, veh_bbox = (100, 300, 60, 200), veh_class = 5, velocity = (- 30, 0),
              history_length = 9, veh_positions = None \<rparr>,
          frame_obj = ''frame 2'' \<rparr>)"
proof -
  let ?h1 = "\<lparr> self_obj = AdaptiveBlindSpotZone 800 600 Left,
        tracked_vehicle_obj =
          \<lparr> veh_id = 0, veh_bbox = (100, 300, 60, 200), veh_class = 2, velocity = (- 30, 0),
            history_length = 2,
            veh_positions = Some [(130, 300, 60, 200), (100, 300, 60, 200)] \<rparr>,
        frame_obj = ''frame 1'' \<rparr>"
  let ?h2 = "\<lparr> self_obj = AdaptiveBlindSpotZone 800 600 Left,
        tracked_vehicle_obj =
          \<lparr> veh_id = 7, veh_bbox = (100, 300, 60, 200), veh_class = 5, velocity = (- 30, 0),
            history_length = 9, veh_positions = None \<rparr>,
        frame_obj = ''frame 2'' \<rparr>"
  have c: "classify_threat (self_obj ?h1) (tracked_vehicle_obj ?h1) (frame_obj ?h1)
             = Inr (Critical, ''Fast approach in blind spot'')"
    by (simp add: classify_threat_def zone_800_600_left lane_thresholds_800 analyze_distance_def)
  have "self_obj ?h1 = self_obj ?h2"
    and "veh_bbox (tracked_vehicle_obj ?h1) = veh_bbox (tracked_vehicle_obj ?h2)"
    and "velocity (tracked_vehicle_obj ?h1) = velocity (tracked_vehicle_obj ?h2)"
    by simp_all
  from classify_threat_reads_bbox_velocity [OF this] c
  show ?thesis by (metis prod.collapse)
qed

subsection \<open>The static zones\<close>

text \<open>
  C9, as stated, fails in both directions on an 800 by 600 frame, where the band is
  \<open>[120, 480]\<close>: a box with top edge 100 and vertical centre 300 is inside the band by
  its centre and gets \<open>none\<close>; a box with top edge 470 and vertical centre 520 is outside
  the band by its centre and gets \<open>critical\<close>.
\<close>

theorem get_zone_counterexample:
  "get_zone (BlindSpotZone 800 600 Left) (0, 100, 10, 400) = None_level
   \<and> 2 / 10 * of_int (bz_height (BlindSpotZone 800 600 Left)) \<le> (of_int (100 + 400 div 2) :: rat)
   \<and> (of_int (100 + 400 div 2) :: rat) \<le> 8 / 10 * of_int (bz_height (BlindSpotZone 800 600 Left))
   \<and> get_zone (BlindSpotZone 800 600 Left) (0, 470, 10, 100) = Critical
   \<and> (of_int (470 + 100 div 2) :: rat) > 8 / 10 * of_int (bz_height (BlindSpotZone 800 600 Left))"
  by (simp add: static_zone_800_600_left)

text \<open>
  C9, amended. \<open>get_zone\<close> returns \<open>none\<close> exactly when the top edge \<open>y\<close> of the box lies
  outside \<open>[0.2 H, 0.8 H]\<close>; for a box whose top edge lies inside that band it returns
  \<open>critical\<close>, \<open>warning\<close> or \<open>safe\<close>, decided by the horizontal centre \<open>x + w div 2\<close>
  against the zone bounds of the configured side.
\<close>

theorem get_zone_top_edge_band:
  "(get_zone z (x, y, w, h) = None_level
      \<longleftrightarrow> (of_int y :: rat) < 2 / 10 * of_int (bz_height z)
          \<or> (of_int y :: rat) > 8 / 10 * of_int (bz_height z))
   \<and> (2 / 10 * of_int (bz_height z) \<le> (of_int y :: rat)
        \<and> (of_int y :: rat) \<le> 8 / 10 * of_int (bz_height z)
      \<longrightarrow> get_zone z (x, y, w, h) =
            (if bz_side z = Left then
               (if x + w div 2 \<le> snd (critical_zone z) then Critical
                else if x + w div 2 \<le> snd (warning_zone z) then Warning else Safe)
             else
               (if x + w div 2 \<ge> fst (critical_zone z) then Critical
                else if x + w div 2 \<ge> fst (warning_zone z) then Warning else Safe)))"
  by (auto simp add: Let_def)

theorem get_zone_top_edge_band_witness:
  "get_zone (BlindSpotZone 800 600 Left) (0, 100, 10, 400) = None_level
   \<and> (of_int 100 :: rat) < 2 / 10 * of_int (bz_height (BlindSpotZone 800 600 Left))
   \<and> 2 / 10 * of_int (bz_height (BlindSpotZone 800 600 Left)) \<le> (of_int 300 :: rat)
   \<and> (of_int 300 :: rat) \<le> 8 / 10 * of_int (bz_height (BlindSpotZone 800 600 Left))
   \<and> get_zone (BlindSpotZone 800 600 Left) (400, 300, 60, 100) = Warning"
  using get_zone_top_edge_band [of "BlindSpotZone 800 600 Left" 0 100 10 400]
    get_zone_top_edge_band [of "BlindSpotZone 800 600 Left" 400 300 60 100]
  by (simp add: static_zone_800_600_left)

subsection \<open>The bounded history\<close>

lemma maxlen_deque_append [simp]: "maxlen (deque_append d x) = maxlen d"
  by (simp add: deque_append_def Let_def)

lemma length_deque_append:
  "length (items d) \<le> maxlen d \<Longrightarrow> length (items (deque_append d x)) \<le> maxlen d"
  by (simp add: deque_append_def Let_def)

lemma items_deque_append_full:
  "length (items d) = maxlen d \<Longrightarrow> 0 < maxlen d \<Longrightarrow> items (deque_append d x) = tl (items d) @ [x]"
  by (cases "items d") (simp_all add: deque_append_def Let_def)

lemma items_deque_append_room:
  "length (items d) < maxlen d \<Longrightarrow> items (deque_append d x) = items d @ [x]"
  by (simp add: deque_append_def Let_def)

lemma deque_init_single:
  "deque_init [x] n = Deque n (if n = 0 then [] else [x])"
  by (simp add: deque_init_def deque_append_def Let_def)

subsection \<open>What the tracker operations leave unchanged\<close>

lemma create_track_fields [simp]:
  "next_id (create_track s det now) = Suc (next_id s)"
  "max_history (create_track s det now) = max_history s"
  "max_disappeared (create_track s det now) = max_disappeared s"
  by (simp_all add: create_track_def)

lemma update_track_fields [simp]:
  "next_id (update_track s tid det now) = next_id s"
  "max_history (update_track s tid det now) = max_history s"
  "max_disappeared (update_track s tid det now) = max_disappeared s"
  by (simp_all add: update_track_def)

lemma track_ids_create_track: "track_ids (create_track s det now) = insert (next_id s) (track_ids s)"
  by (simp add: track_ids_def create_track_def dom_update)

lemma track_ids_update_track [simp]: "track_ids (update_track s tid det now) = track_ids s"
  by (simp add: track_ids_def update_track_def dom_map_entry)

lemma list_all_update:
  "list_all P al \<Longrightarrow> P (k, v) \<Longrightarrow> list_all P (AList.update k v al)"
  by (induction al) auto

lemma list_all_map_entry:
  "list_all P al \<Longrightarrow> (\<And>v. P (k, v) \<Longrightarrow> P (k, f v)) \<Longrightarrow> list_all P (AList.map_entry k f al)"
  by (induction al) auto

lemma list_all_delete: "list_all P al \<Longrightarrow> list_all P (AList.delete k al)"
  by (induction al) auto

lemma track_ok_mono: "track_ok n mh e \<Longrightarrow> n \<le> n' \<Longrightarrow> track_ok n' mh e"
  by (auto simp: track_ok_def)

lemma list_all_track_ok_mono:
  "list_all (track_ok n mh) al \<Longrightarrow> n \<le> n' \<Longrightarrow> list_all (track_ok n' mh) al"
  by (auto simp: list_all_iff intro: track_ok_mono)

lemma track_ok_new:
  "track_ok (Suc n) mh (n, \<lparr> positions = deque_init [b] mh, last_seen = t,
                              track_class = c, track_confidence = q \<rparr>)"
  by (simp add: track_ok_def deque_init_single)

lemma track_ok_append:
  assumes "track_ok n mh (k, v)"
  shows "track_ok n mh (k, v\<lparr> positions := deque_append (positions v) b, last_seen := t,
                              track_confidence := q \<rparr>)"
  using assms length_deque_append[of "positions v" b] by (simp add: track_ok_def)

lemma tracker_inv_create_track: "tracker_inv s \<Longrightarrow> tracker_inv (create_track s det now)"
proof -
  assume a: "tracker_inv s"
  then have "list_all (track_ok (Suc (next_id s)) (max_history s)) (tracks s)"
    unfolding tracker_inv_def by (blast intro: list_all_track_ok_mono le_SucI)
  then have "list_all (track_ok (Suc (next_id s)) (max_history s))
     (AList.update (next_id s) \<lparr> positions = deque_init [det_bbox det] (max_history s),
                      last_seen = now, track_class = det_class_id det,
                      track_confidence = det_confidence det \<rparr> (tracks s))"
    by (rule list_all_update) (rule track_ok_new)
  then show ?thesis
    using a by (simp add: tracker_inv_def create_track_def distinct_update)
qed

lemma tracker_inv_update_track: "tracker_inv s \<Longrightarrow> tracker_inv (update_track s tid det now)"
  unfolding tracker_inv_def update_track_def
  by (auto intro!: list_all_map_entry distinct_map_entry track_ok_append)

lemma tracker_inv_delete: "tracker_inv s \<Longrightarrow> tracker_inv (s\<lparr> tracks := AList.delete tid (tracks s) \<rparr>)"
  unfolding tracker_inv_def
  by (auto intro!: list_all_delete distinct_delete)

lemma tracker_inv_filter: "tracker_inv s \<Longrightarrow> tracker_inv (s\<lparr> tracks := filter P (tracks s) \<rparr>)"
  unfolding tracker_inv_def
  by (auto simp: distinct_map_filter list_all_iff)

lemma tracker_inv_init: "tracker_inv (VehicleTracker mh)"
  by (simp add: tracker_inv_def VehicleTracker_def)

subsection \<open>The loops of \<open>update\<close>\<close>

lemma create_all_fields [simp]:
  "max_history (create_all dets now s) = max_history s"
  "max_disappeared (create_all dets now s) = max_disappeared s"
  "next_id (create_all dets now s) = next_id s + length dets"
  by (induction dets arbitrary: s) simp_all

lemma tracker_inv_create_all: "tracker_inv s \<Longrightarrow> tracker_inv (create_all dets now s)"
  by (induction dets arbitrary: s) (simp_all add: tracker_inv_create_track)

lemma create_unmatched_fields [simp]:
  "max_history (create_unmatched xs M now s) = max_history s"
  "max_disappeared (create_unmatched xs M now s) = max_disappeared s"
  by (induction xs M now s rule: create_unmatched.induct) simp_all

lemma next_id_create_unmatched: "next_id s \<le> next_id (create_unmatched xs M now s)"
  by (induction xs M now s rule: create_unmatched.induct) (auto intro: Suc_leD)

lemma tracker_inv_create_unmatched: "tracker_inv s \<Longrightarrow> tracker_inv (create_unmatched xs M now s)"
  by (induction xs M now s rule: create_unmatched.induct) (simp_all add: tracker_inv_create_track)

lemma match_tracks_fields:
  "match_tracks snap dets now (s, M) = (s', M') \<Longrightarrow>
     next_id s' = next_id s \<and> max_history s' = max_history s \<and> max_disappeared s' = max_disappeared s"
  by (induction snap dets now "(s, M)" arbitrary: s M rule: match_tracks.induct)
     (auto simp: Let_def split: if_splits prod.splits option.splits)

lemma tracker_inv_match_tracks:
  "match_tracks snap dets now (s, M) = (s', M') \<Longrightarrow> tracker_inv s \<Longrightarrow> tracker_inv s'"
  by (induction snap dets now "(s, M)" arbitrary: s M rule: match_tracks.induct)
     (auto simp: Let_def tracker_inv_update_track tracker_inv_delete split: if_splits prod.splits option.splits)

lemma track_ids_match_tracks:
  "match_tracks snap dets now (s, M) = (s', M') \<Longrightarrow> track_ids s' \<subseteq> track_ids s"
proof (induction snap dets now "(s, M)" arbitrary: s M rule: match_tracks.induct)
  case (1 dets now s M)
  then show ?case by simp
next
  case (2 tid trk rest dets now s M)
  have del: "track_ids (s\<lparr> tracks := AList.delete tid (tracks s) \<rparr>) \<subseteq> track_ids s"
    by (simp add: track_ids_def dom_delete_subset)
  from 2 show ?case
    by (fastforce simp: Let_def split: if_splits prod.splits option.splits dest: subsetD[OF del])
qed


lemma track_ids_create_unmatched:
  "track_ids (create_unmatched xs M now s) \<subseteq> track_ids s \<union> {next_id s ..< next_id (create_unmatched xs M now s)}"
proof (induction xs M now s rule: create_unmatched.induct)
  case (1 M now s)
  then show ?case by simp
next
  case (2 i det rest M now s)
  show ?case
  proof (cases "i \<in> M")
    case True
    with 2 show ?thesis by simp
  next
    case False
    let ?s1 = "create_track s det now"
    have le: "next_id ?s1 \<le> next_id (create_unmatched rest M now ?s1)"
      by (rule next_id_create_unmatched)
    from 2(1)[OF False] le show ?thesis
      using False by (auto simp: track_ids_create_track)
  qed
qed

lemma create_all_eq_create_unmatched:
  "create_all dets now s = create_unmatched (enumerate n dets) {} now s"
  by (induction dets arbitrary: n s) simp_all

lemma update_cases:
  obtains (empty) "dets = []"
      "update s dets now = (s\<lparr> tracks := filter (\<lambda>(tid, trk). now - last_seen trk < max_disappeared s) (tracks s) \<rparr>, Inr [])"
  | (fresh) "dets \<noteq> []" "tracks s = []"
      "fst (update s dets now) = create_unmatched (enumerate 0 dets) {} now s"
  | (matching) s1 M where "dets \<noteq> []" "tracks s \<noteq> []"
      "match_tracks (tracks s) dets now (s, {}) = (s1, M)"
      "fst (update s dets now) = create_unmatched (enumerate 0 dets) M now s1"
proof (cases "dets = []")
  case True
  then show ?thesis using empty by (simp add: update_def)
next
  case ne: False
  show ?thesis
  proof (cases "tracks s = []")
    case True
    then show ?thesis
      using ne fresh by (simp add: update_def Let_def create_all_eq_create_unmatched[of _ _ _ 0])
  next
    case False
    obtain s1 M where m: "match_tracks (tracks s) dets now (s, {}) = (s1, M)"
      by (cases "match_tracks (tracks s) dets now (s, {})")
    then show ?thesis
      using ne False matching by (simp add: update_def Let_def)
  qed
qed

lemma update_fields:
  "max_history (fst (update s dets now)) = max_history s"
  "max_disappeared (fst (update s dets now)) = max_disappeared s"
  "next_id s \<le> next_id (fst (update s dets now))"
proof -
  show "max_history (fst (update s dets now)) = max_history s"
    by (cases rule: update_cases[where s=s and dets=dets and now=now]) (auto dest: match_tracks_fields)
  show "max_disappeared (fst (update s dets now)) = max_disappeared s"
    by (cases rule: update_cases[where s=s and dets=dets and now=now]) (auto dest: match_tracks_fields)
  show "next_id s \<le> next_id (fst (update s dets now))"
  proof (cases rule: update_cases[where s=s and dets=dets and now=now])
    case (matching s1 M)
    then show ?thesis
      using next_id_create_unmatched[of s1 "enumerate 0 dets" M now]
      by (auto dest: match_tracks_fields)
  qed (auto simp: next_id_create_unmatched)
qed

lemma tracker_inv_update: "tracker_inv s \<Longrightarrow> tracker_inv (fst (update s dets now))"
  by (cases rule: update_cases[where s=s and dets=dets and now=now])
     (auto simp: tracker_inv_filter tracker_inv_create_unmatched dest: tracker_inv_match_tracks)

lemma track_ids_update:
  "track_ids (fst (update s dets now)) \<subseteq> track_ids s \<union> {next_id s ..< next_id (fst (update s dets now))}"
proof (cases rule: update_cases[where s=s and dets=dets and now=now])
  case empty
  then show ?thesis by (auto simp: track_ids_def)
next
  case fresh
  then show ?thesis using track_ids_create_unmatched[of "enumerate 0 dets" "{}" now s] by simp
next
  case (matching s1 M)
  from matching(3) have "track_ids s1 \<subseteq> track_ids s" "next_id s1 = next_id s"
    by (auto dest: track_ids_match_tracks match_tracks_fields)
  then show ?thesis
    using track_ids_create_unmatched[of "enumerate 0 dets" M now s1] matching(4) by auto
qed

lemma updates_fields:
  "max_history (updates s calls) = max_history s"
  "max_disappeared (updates s calls) = max_disappeared s"
  "next_id s \<le> next_id (updates s calls)"
proof -
  show "max_history (updates s calls) = max_history s"
    by (induction s calls rule: updates.induct) (simp_all add: update_fields)
  show "max_disappeared (updates s calls) = max_disappeared s"
    by (induction s calls rule: updates.induct) (simp_all add: update_fields)
  show "next_id s \<le> next_id (updates s calls)"
    by (induction s calls rule: updates.induct) (auto intro: order_trans update_fields(3))
qed

lemma tracker_inv_updates: "tracker_inv s \<Longrightarrow> tracker_inv (updates s calls)"
  by (induction s calls rule: updates.induct) (simp_all add: tracker_inv_update)

lemma tracker_inv_keys: "tracker_inv s \<Longrightarrow> k \<in> track_ids s \<Longrightarrow> k < next_id s"
  by (auto simp: tracker_inv_def track_ids_def list_all_iff track_ok_def)


text \<open>
  C5. On an empty list of detections \<open>update\<close> returns the empty list and changes the
  tracker in one way only: it keeps, in their order and unchanged, the tracks whose idle
  time \<open>now - last_seen\<close> is below the disappearance timeout, and drops those whose
  idle time is at least the timeout. \<open>next_id\<close> and the capacity are untouched, so no
  track is created, and no kept track is written to, so none is matched. The timeout of
  a tracker is 1 when it is built and after every sequence of calls.
\<close>

theorem update_no_detections:
  "update s [] now =
     (s\<lparr> tracks := filter (\<lambda>(tid, trk). \<not> max_disappeared s \<le> now - last_seen trk) (tracks s) \<rparr>,
      Inr [])
   \<and> max_disappeared (updates (VehicleTracker mh) calls) = 1"
  by (simp add: update_def not_le updates_fields VehicleTracker_def)

text \<open>
  Two tracks last seen at times 0 and 0.5; the empty frame at time 1 drops the first
  (idle for exactly the timeout) and keeps the second.
\<close>

theorem update_no_detections_witness:
  "tracks (updates (VehicleTracker 10)
      [([\<lparr> det_bbox = (100, 300, 60, 200), det_confidence = 3 / 4, det_class_id = 2 \<rparr>], 0),
       ([\<lparr> det_bbox = (400, 300, 60, 200), det_confidence = 7 / 8, det_class_id = 3 \<rparr>], 1 / 2)])
     = [(0, \<lparr> positions = Deque 10 [(100, 300, 60, 200)], last_seen = 0,
              track_class = 2, track_confidence = 3 / 4 \<rparr>),
        (1, \<lparr> positions = Deque 10 [(400, 300, 60, 200)], last_seen = 1 / 2,
              track_class = 3, track_confidence = 7 / 8 \<rparr>)]
   \<and> update (updates (VehicleTracker 10)
      [([\<lparr> det_bbox = (100, 300, 60, 200), det_confidence = 3 / 4, det_class_id = 2 \<rparr>], 0),
       ([\<lparr> det_bbox = (400, 300, 60, 200), det_confidence = 7 / 8, det_class_id = 3 \<rparr>], 1 / 2)])
      [] 1
     = (\<lparr> tracks = [(1, \<lparr> positions = Deque 10 [(400, 300, 60, 200)], last_seen = 1 / 2,
                          track_class = 3, track_confidence = 7 / 8 \<rparr>)],
          next_id = 2, max_history = 10, max_disappeared = 1 \<rparr>, Inr [])"
proof -
  let ?calls = "[([\<lparr> det_bbox = (100, 300, 60, 200), det_confidence = 3 / 4, det_class_id = 2 \<rparr>], 0),
       ([\<lparr> det_bbox = (400, 300, 60, 200), det_confidence = 7 / 8, det_class_id = 3 \<rparr>], 1 / 2 :: rat)]"
  have run: "updates (VehicleTracker 10) ?calls
     = \<lparr> tracks = [(0, \<lparr> positions = Deque 10 [(100, 300, 60, 200)], last_seen = 0,
              track_class = 2, track_confidence = 3 / 4 \<rparr>),
        (1, \<lparr> positions = Deque 10 [(400, 300, 60, 200)], last_seen = 1 / 2,
              track_class = 3, track_confidence = 7 / 8 \<rparr>)],
         next_id = 2, max_history = 10, max_disappeared = 1 \<rparr>"
    by (simp add: update_def VehicleTracker_def create_track_def deque_init_def deque_append_def Let_def)
  from update_no_detections [of "updates (VehicleTracker 10) ?calls" 1 10 ?calls]
  show ?thesis
    unfolding run by simp
qed

text \<open>
  C7. Take any run of \<open>update\<close> calls from a new tracker, a call in it and a later call.
  An identifier that is in use after the first call and was not before it is a value
  from \<open>next_id\<close> before the call up to \<open>next_id\<close> after it; \<open>next_id\<close> never
  decreases; so the identifier is strictly below every identifier that a later call
  introduces, whether or not its track is still live then. The identifiers in use after
  a call are pairwise distinct.
\<close>
theorem ids_never_reused:
  assumes "s = updates (VehicleTracker mh) calls1"
    and "s' = fst (update s dets1 t1)"
    and "s2 = updates s' calls2"
    and "s2' = fst (update s2 dets2 t2)"
    and "k1 \<in> track_ids s' - track_ids s"
    and "k2 \<in> track_ids s2' - track_ids s2"
  shows "next_id s \<le> k1 \<and> k1 < next_id s' \<and> next_id s' \<le> next_id s2
         \<and> next_id s2 \<le> k2 \<and> k2 < next_id s2' \<and> k1 \<noteq> k2
         \<and> distinct (map fst (tracks s')) \<and> distinct (map fst (tracks s2'))"
proof -
  have inv: "tracker_inv s" unfolding assms(1) by (intro tracker_inv_updates tracker_inv_init)
  then have inv': "tracker_inv s'" unfolding assms(2) by (rule tracker_inv_update)
  then have inv2: "tracker_inv s2" unfolding assms(3) by (rule tracker_inv_updates)
  then have inv2': "tracker_inv s2'" unfolding assms(4) by (rule tracker_inv_update)
  have a: "next_id s \<le> k1 \<and> k1 < next_id s'"
    using track_ids_update[of s dets1 t1] assms(5) unfolding assms(2) by auto
  have b: "next_id s2 \<le> k2 \<and> k2 < next_id s2'"
    using track_ids_update[of s2 dets2 t2] assms(6) unfolding assms(4) by auto
  have c: "next_id s' \<le> next_id s2" unfolding assms(3) by (rule updates_fields)
  show ?thesis using a b c inv' inv2' by (auto simp: tracker_inv_def)
qed


text \<open>
  A track gets identifier 0, a frame without detections five seconds later prunes it,
  and a detection at the same place then gets identifier 1.
\<close>

theorem ids_never_reused_witness:
  "track_ids (fst (update (VehicleTracker 10)
        [\<lparr> det_bbox = (100, 300, 60, 200), det_confidence = 3 / 4, det_class_id = 2 \<rparr>] 0))
     - track_ids (VehicleTracker 10) = {0}
   \<and> track_ids (updates (fst (update (VehicleTracker 10)
        [\<lparr> det_bbox = (100, 300, 60, 200), det_confidence = 3 / 4, det_class_id = 2 \<rparr>] 0))
        [([], 5)]) = {}
   \<and> track_ids (fst (update (updates (fst (update (VehicleTracker 10)
        [\<lparr> det_bbox = (100, 300, 60, 200), det_confidence = 3 / 4, det_class_id = 2 \<rparr>] 0))
        [([], 5)])
        [\<lparr> det_bbox = (100, 300, 60, 200), det_confidence = 3 / 4, det_class_id = 2 \<rparr>] 6))
      = {1}
   \<and> (0 :: nat) \<noteq> 1"
proof -
  let ?d = "\<lparr> det_bbox = (100, 300, 60, 200), det_confidence = 3 / 4, det_class_id = 2 \<rparr>"
  let ?s = "updates (VehicleTracker 10) []"
  let ?s' = "fst (update ?s [?d] 0)"
  let ?s2 = "updates ?s' [([], 5)]"
  let ?s2' = "fst (update ?s2 [?d] 6)"
  have a: "track_ids ?s' - track_ids ?s = {0}"
    by (simp add: track_ids_def update_def VehicleTracker_def create_track_def Let_def)
  have b: "track_ids ?s2 = {}"
    by (simp add: track_ids_def update_def VehicleTracker_def create_track_def Let_def)
  have c: "track_ids ?s2' = {1}"
    by (simp add: track_ids_def update_def VehicleTracker_def create_track_def Let_def)
  have k1: "0 \<in> track_ids ?s' - track_ids ?s" using a by simp
  have k2: "1 \<in> track_ids ?s2' - track_ids ?s2" using b c by simp
  from ids_never_reused [OF refl refl refl refl k1 k2] a b c show ?thesis by simp
qed

subsection \<open>Matching within the radius\<close>

lemma closest_best:
  "closest c M xs (md, b) = (md', b') \<Longrightarrow>
     b' = b \<or> (\<exists>i det. (i, det) \<in> set xs \<and> b' = Some i \<and> i \<notin> M
                 \<and> norm_sq c (center (det_bbox det)) < 100 * 100)"
proof (induction c M xs "(md, b)" arbitrary: md b rule: closest.induct)
  case (1 c M md b)
  then show ?case by simp
next
  case (2 c M i det rest md b)
  show ?case
  proof (cases "i \<in> M")
    case True
    with 2 show ?thesis by auto
  next
    case False
    let ?dist = "norm_sq c (center (det_bbox det))"
    show ?thesis
    proof (cases "(case md of None \<Rightarrow> True | Some m \<Rightarrow> ?dist < m) \<and> ?dist < 100 * 100")
      case True
      from 2(4) False True have "closest c M rest (Some ?dist, Some i) = (md', b')"
        by (auto simp: Let_def split: if_splits)
      from 2(2)[OF False refl True this] False True show ?thesis
        by (elim disjE exE conjE) (simp_all, blast+)
    next
      case c: False
      from 2(4) False c have "closest c M rest (md, b) = (md', b')"
        by (auto simp: Let_def split: if_splits)
      from 2(3)[OF False refl c this] show ?thesis
        by (elim disjE exE conjE) (simp_all, blast+)
    qed
  qed
qed

lemma match_tracks_matched:
  "match_tracks snap dets now (s, M) = (s', M') \<Longrightarrow> j \<in> M' \<Longrightarrow>
     j \<in> M \<or> (\<exists>tid trk. (tid, trk) \<in> set snap \<and> items (positions trk) \<noteq> [] \<and> j < length dets
                 \<and> norm_sq (center (last (items (positions trk)))) (center (det_bbox (dets ! j))) < 100 * 100)"
proof (induction snap dets now "(s, M)" arbitrary: s M rule: match_tracks.induct)
  case (1 dets now s M)
  then show ?case by simp
next
  case (2 tid trk rest dets now s M)
  show ?case
  proof (cases "length (items (positions trk)) = 0")
    case True
    with 2(1)[OF True] 2(5,6) show ?thesis by auto
  next
    case ne: False
    let ?c = "center (last (items (positions trk)))"
    obtain md b where cl: "closest ?c M (enumerate 0 dets) (None, None) = (md, b)"
      by (cases "closest ?c M (enumerate 0 dets) (None, None)")
    show ?thesis
    proof (cases b)
      case None
      show ?thesis
      proof (cases "now - last_seen trk > max_disappeared s")
        case True
        from 2(5) ne cl None True
        have "match_tracks rest dets now (s\<lparr> tracks := AList.delete tid (tracks s) \<rparr>, M) = (s', M')"
          by (simp add: Let_def)
        from 2(2)[OF ne refl refl cl[symmetric] None True this 2(6)] show ?thesis by auto
      next
        case False
        from 2(5) ne cl None False
        have "match_tracks rest dets now (s, M) = (s', M')"
          by (simp add: Let_def)
        from 2(3)[OF ne refl refl cl[symmetric] None False this 2(6)] show ?thesis by auto
      qed
    next
      case (Some i)
      from closest_best[OF cl] Some
      obtain det where det: "(i, det) \<in> set (enumerate 0 dets)" "i \<notin> M"
        "norm_sq ?c (center (det_bbox det)) < 100 * 100"
        by auto
      then have i: "i < length dets" "det = dets ! i"
        by (auto simp: in_set_enumerate_eq)
      from 2(5) ne cl Some
      have "match_tracks rest dets now (update_track s tid (dets ! i) now, insert i M) = (s', M')"
        by (simp add: Let_def)
      from 2(4)[OF ne refl refl cl[symmetric] Some this 2(6)] det i ne show ?thesis
        by auto
    qed
  qed
qed


lemma map_of_create_track:
  "map_of (tracks (create_track s det now)) = (map_of (tracks s))(next_id s \<mapsto> new_track s det now)"
  by (simp add: create_track_def new_track_def update_conv')

lemma create_unmatched_keep:
  "k < next_id s \<Longrightarrow> map_of (tracks (create_unmatched xs M now s)) k = map_of (tracks s) k"
  by (induction xs M now s rule: create_unmatched.induct) (simp_all add: map_of_create_track)

lemma new_track_cong: "max_history s' = max_history s \<Longrightarrow> new_track s' det now = new_track s det now"
  by (simp add: new_track_def)

lemma create_unmatched_creates:
  "(i, det) \<in> set xs \<Longrightarrow> i \<notin> M \<Longrightarrow>
     \<exists>k. next_id s \<le> k \<and> k < next_id (create_unmatched xs M now s)
         \<and> map_of (tracks (create_unmatched xs M now s)) k = Some (new_track s det now)"
proof (induction xs M now s rule: create_unmatched.induct)
  case (1 M now s)
  then show ?case by simp
next
  case (2 i' det' rest M now s)
  let ?s1 = "create_track s det' now"
  show ?case
  proof (cases "i' \<in> M")
    case True
    with 2 show ?thesis by auto
  next
    case False
    show ?thesis
    proof (cases "(i, det) = (i', det')")
      case True
      have "map_of (tracks (create_unmatched rest M now ?s1)) (next_id s) = Some (new_track s det now)"
        using True by (simp add: create_unmatched_keep map_of_create_track)
      moreover have "next_id s < next_id (create_unmatched rest M now ?s1)"
        using next_id_create_unmatched[of ?s1 rest M now] by simp
      ultimately show ?thesis using False by auto
    next
      case ne: False
      with 2(3) have "(i, det) \<in> set rest" by auto
      from 2(1)[OF False this 2(4)] obtain k where
        "next_id ?s1 \<le> k" "k < next_id (create_unmatched rest M now ?s1)"
        "map_of (tracks (create_unmatched rest M now ?s1)) k = Some (new_track ?s1 det now)"
        by blast
      then show ?thesis
        using False by (auto simp: new_track_cong[of ?s1 s] intro!: exI[of _ k])
    qed
  qed
qed


text \<open>
  On a dictionary (distinct keys) no access of the loop fails: the index comes from the
  enumeration, and an iteration deletes no key but its own.
\<close>

lemma closest_in_range:
  assumes "closest c M (enumerate 0 dets) (None, None) = (md, Some i)"
  shows "i < length dets"
  using closest_best[OF assms] by (auto simp: in_set_enumerate_eq)

lemma track_ids_delete:
  "track_ids (s\<lparr> tracks := AList.delete tid (tracks s) \<rparr>) = track_ids s - {tid}"
  by (auto simp: track_ids_def AList.delete_eq)

lemma match_tracks_no_failure:
  "distinct (map fst snap) \<Longrightarrow> fst ` set snap \<subseteq> track_ids s \<Longrightarrow>
     match_tracks_checked snap dets now (s, M) = Some (match_tracks snap dets now (s, M))"
proof (induction snap dets now "(s, M)" arbitrary: s M rule: match_tracks.induct)
  case (1 dets now s M)
  then show ?case by simp
next
  case (2 tid trk rest dets now s M)
  have d: "distinct (map fst rest)" and ni: "tid \<notin> fst ` set rest"
    and sub: "fst ` set rest \<subseteq> track_ids s" and live: "tid \<in> track_ids s"
    using 2(5,6) by auto
  show ?case
  proof (cases "length (items (positions trk)) = 0")
    case True
    with 2(1)[OF True d sub] show ?thesis by simp
  next
    case ne: False
    let ?c = "center (last (items (positions trk)))"
    obtain md b where cl: "closest ?c M (enumerate 0 dets) (None, None) = (md, b)"
      by (cases "closest ?c M (enumerate 0 dets) (None, None)")
    show ?thesis
    proof (cases b)
      case None
      show ?thesis
      proof (cases "now - last_seen trk > max_disappeared s")
        case True
        have "fst ` set rest \<subseteq> track_ids (s\<lparr> tracks := AList.delete tid (tracks s) \<rparr>)"
          using sub ni by (auto simp: track_ids_delete)
        from 2(2)[OF ne refl refl cl[symmetric] None True d this] ne cl None True
        show ?thesis by (simp add: Let_def)
      next
        case False
        from 2(3)[OF ne refl refl cl[symmetric] None False d sub] ne cl None False
        show ?thesis by (simp add: Let_def)
      qed
    next
      case (Some i)
      have i: "i < length dets" using cl Some closest_in_range by blast
      have "fst ` set rest \<subseteq> track_ids (update_track s tid (dets ! i) now)"
        using sub by simp
      from 2(4)[OF ne refl refl cl[symmetric] Some d this] ne cl Some i live
      show ?thesis by (simp add: Let_def)
    qed
  qed
qed

lemma update_accesses_in_range:
  assumes "tracker_inv s"
  shows "match_tracks_checked (tracks s) dets now (s, {})
           = Some (match_tracks (tracks s) dets now (s, {}))"
  using assms by (intro match_tracks_no_failure) (auto simp: tracker_inv_def track_ids_def)

subsection \<open>What one call does to one track\<close>

lemma map_of_update_track:
  "map_of (tracks (update_track s tid det now)) k =
     (if k = tid then map_option (\<lambda>t. appended t det now) (map_of (tracks s) tid)
      else map_of (tracks s) k)"
  by (simp add: update_track_def map_of_map_entry appended_def split: option.splits)

lemma map_of_delete_track:
  "map_of (tracks (s\<lparr> tracks := AList.delete tid (tracks s) \<rparr>)) k =
     (if k = tid then None else map_of (tracks s) k)"
  by (simp add: delete_conv')

lemma match_tracks_effect:
  "match_tracks snap dets now (s, M) = (s1, M1) \<Longrightarrow> distinct (map fst snap) \<Longrightarrow>
   (\<forall>(k, t) \<in> set snap. map_of (tracks s) k = Some t) \<Longrightarrow>
   map_of (tracks s1) tid = Some t1 \<Longrightarrow>
     map_of (tracks s) tid = Some t1
     \<or> (\<exists>t j. (tid, t) \<in> set snap \<and> items (positions t) \<noteq> [] \<and> j < length dets
               \<and> t1 = appended t (dets ! j) now)"
proof (induction snap dets now "(s, M)" arbitrary: s M rule: match_tracks.induct)
  case (1 dets now s M)
  then show ?case by simp
next
  case (2 k0 t0 rest dets now s M)
  have d: "distinct (map fst rest)" and ni: "k0 \<notin> fst ` set rest"
    and live: "map_of (tracks s) k0 = Some t0"
    and sub: "\<forall>(k, t) \<in> set rest. map_of (tracks s) k = Some t"
    using 2(6,7) by auto
  show ?case
  proof (cases "length (items (positions t0)) = 0")
    case True
    from 2(5) True have "match_tracks rest dets now (s, M) = (s1, M1)" by simp
    from 2(1)[OF True this d sub 2(8)] show ?thesis by auto
  next
    case ne: False
    let ?c = "center (last (items (positions t0)))"
    obtain md b where cl: "closest ?c M (enumerate 0 dets) (None, None) = (md, b)"
      by (cases "closest ?c M (enumerate 0 dets) (None, None)")
    show ?thesis
    proof (cases b)
      case None
      show ?thesis
      proof (cases "now - last_seen t0 > max_disappeared s")
        case True
        let ?s = "s\<lparr> tracks := AList.delete k0 (tracks s) \<rparr>"
        from 2(5) ne cl None True
        have m: "match_tracks rest dets now (?s, M) = (s1, M1)" by (simp add: Let_def)
        have sub': "\<forall>(k, t) \<in> set rest. map_of (tracks ?s) k = Some t"
        proof (clarify)
          fix k t assume kt: "(k, t) \<in> set rest"
          then have "k \<noteq> k0" using ni by force
          with sub kt show "map_of (tracks ?s) k = Some t"
            by (auto simp: delete_conv')
        qed
        from 2(2)[OF ne refl refl cl[symmetric] None True m d sub' 2(8)]
        show ?thesis by (auto simp: delete_conv' split: if_splits)
      next
        case False
        from 2(5) ne cl None False
        have m: "match_tracks rest dets now (s, M) = (s1, M1)" by (simp add: Let_def)
        from 2(3)[OF ne refl refl cl[symmetric] None False m d sub 2(8)]
        show ?thesis by auto
      qed
    next
      case (Some i)
      let ?s = "update_track s k0 (dets ! i) now"
      have i: "i < length dets" using cl Some closest_in_range by blast
      from 2(5) ne cl Some
      have m: "match_tracks rest dets now (?s, insert i M) = (s1, M1)" by (simp add: Let_def)
      have sub': "\<forall>(k, t) \<in> set rest. map_of (tracks ?s) k = Some t"
      proof (clarify)
        fix k t assume kt: "(k, t) \<in> set rest"
        then have "k \<noteq> k0" using ni by force
        with sub kt show "map_of (tracks ?s) k = Some t"
          by (auto simp: map_of_update_track)
      qed
      from 2(4)[OF ne refl refl cl[symmetric] Some m d sub' 2(8)]
      show ?thesis
      proof
        assume a: "map_of (tracks ?s) tid = Some t1"
        show ?thesis
        proof (cases "tid = k0")
          case True
          with a live have "t1 = appended t0 (dets ! i) now"
            by (simp add: map_of_update_track)
          with True ne i show ?thesis by auto
        next
          case False
          with a show ?thesis by (simp add: map_of_update_track)
        qed
      next
        assume "\<exists>t j. (tid, t) \<in> set rest \<and> items (positions t) \<noteq> [] \<and> j < length dets
               \<and> t1 = appended t (dets ! j) now"
        then show ?thesis by auto
      qed
    qed
  qed
qed

lemma create_unmatched_effect:
  "map_of (tracks (create_unmatched xs M now s)) tid = Some t1 \<Longrightarrow>
     map_of (tracks s) tid = Some t1
     \<or> (next_id s \<le> tid \<and> (\<exists>i det. (i, det) \<in> set xs \<and> i \<notin> M \<and> t1 = new_track s det now))"
proof (induction xs M now s rule: create_unmatched.induct)
  case (1 M now s)
  then show ?case by simp
next
  case (2 i det rest M now s)
  show ?case
  proof (cases "i \<in> M")
    case True
    with 2 show ?thesis by auto
  next
    case False
    let ?s = "create_track s det now"
    from 2(3) False have "map_of (tracks (create_unmatched rest M now ?s)) tid = Some t1" by simp
    from 2(1)[OF False this] show ?thesis
    proof
      assume "map_of (tracks ?s) tid = Some t1"
      then show ?thesis using False
        by (auto simp: map_of_create_track split: if_splits)
    next
      assume "next_id ?s \<le> tid \<and> (\<exists>i det. (i, det) \<in> set rest \<and> i \<notin> M \<and> t1 = new_track ?s det now)"
      then show ?thesis by (auto simp: new_track_cong[of ?s s])
    qed
  qed
qed

lemma map_of_filter_distinct:
  "distinct (map fst xs) \<Longrightarrow> map_of (filter P xs) k = Some v \<Longrightarrow> map_of xs k = Some v"
  by (metis filter_is_subset map_of_SomeD map_of_eq_Some_iff subsetD)

lemma update_effect:
  assumes "tracker_inv s" and "map_of (tracks (fst (update s dets now))) tid = Some t1"
  shows "map_of (tracks s) tid = Some t1
     \<or> (\<exists>t j. map_of (tracks s) tid = Some t \<and> items (positions t) \<noteq> [] \<and> j < length dets
               \<and> t1 = appended t (dets ! j) now)
     \<or> (map_of (tracks s) tid = None \<and> (\<exists>j. j < length dets \<and> t1 = new_track s (dets ! j) now))"
proof -
  have dist: "distinct (map fst (tracks s))" using assms(1) by (simp add: tracker_inv_def)
  have fresh: "map_of (tracks s) k = None" if "next_id s \<le> k" for k
  proof (rule ccontr)
    assume "map_of (tracks s) k \<noteq> None"
    then have "k \<in> track_ids s" by (auto simp: track_ids_def dest: map_of_SomeD intro: rev_image_eqI)
    with tracker_inv_keys[OF assms(1)] that show False by fastforce
  qed
  show ?thesis
  proof (cases rule: update_cases[where s=s and dets=dets and now=now])
    case empty
    from assms(2) empty(2)
    have "map_of (filter (\<lambda>(tid, trk). now - last_seen trk < max_disappeared s) (tracks s)) tid
            = Some t1" by simp
    from map_of_filter_distinct[OF dist this] show ?thesis by simp
  next
    case fresh': fresh
    from assms(2) fresh'(3)
    have "map_of (tracks (create_unmatched (enumerate 0 dets) {} now s)) tid = Some t1" by simp
    from create_unmatched_effect[OF this] fresh show ?thesis
      by (auto simp: in_set_enumerate_eq)
  next
    case (matching s1 M)
    have f: "next_id s1 = next_id s" "max_history s1 = max_history s"
      using match_tracks_fields[OF matching(3)] by simp_all
    have sub: "\<forall>(k, t) \<in> set (tracks s). map_of (tracks s) k = Some t"
      using dist by auto
    from assms(2) matching(4)
    have "map_of (tracks (create_unmatched (enumerate 0 dets) M now s1)) tid = Some t1" by simp
    from create_unmatched_effect[OF this] show ?thesis
    proof
      assume a: "map_of (tracks s1) tid = Some t1"
      from match_tracks_effect[OF matching(3) dist sub a] dist show ?thesis by auto
    next
      assume "next_id s1 \<le> tid \<and> (\<exists>i det. (i, det) \<in> set (enumerate 0 dets) \<and> i \<notin> M \<and> t1 = new_track s1 det now)"
      with f fresh show ?thesis
        by (auto simp: in_set_enumerate_eq new_track_cong[of s1 s])
    qed
  qed
qed

lemma items_appended:
  assumes "items (positions t) \<noteq> []" and "length (items (positions t)) \<le> maxlen (positions t)"
  shows "items (positions (appended t det now)) =
           (if length (items (positions t)) = maxlen (positions t)
            then tl (items (positions t)) else items (positions t)) @ [det_bbox det]"
  using assms by (cases "items (positions t)") (auto simp: appended_def deque_append_def Let_def)

text \<open>
  C8. Take a tracker built with capacity \<open>mh\<close>, any sequence of \<open>update\<close> calls on it,
  and one more call. Before the call every history is a deque of capacity \<open>mh\<close> with at
  most \<open>mh\<close> entries, and so is the history of every track live after it. A track live
  after the call is either a track of before, unchanged; or a track of before with the
  bbox of one detection of the call appended at the end of its history, the first
  (oldest) entry dropped when the history was full, all other entries kept in their
  order; or a track created by the call, with the bbox of one detection as its single
  entry. So the entries of a history are always in order of arrival, newest last, and
  eviction takes the oldest.
\<close>

theorem history_bounded_fifo:
  assumes "s = updates (VehicleTracker mh) calls"
    and "s' = fst (update s detections now)"
    and "map_of (tracks s') tid = Some trk'"
  shows "list_all (\<lambda>(tid, trk). maxlen (positions trk) = mh \<and> length (items (positions trk)) \<le> mh)
           (tracks s)
       \<and> maxlen (positions trk') = mh \<and> length (items (positions trk')) \<le> mh
       \<and> (map_of (tracks s) tid = Some trk'
          \<or> (\<exists>trk j. map_of (tracks s) tid = Some trk \<and> j < length detections
                \<and> items (positions trk') =
                    (if length (items (positions trk)) = mh
                     then tl (items (positions trk)) else items (positions trk))
                    @ [det_bbox (detections ! j)])
          \<or> (map_of (tracks s) tid = None
              \<and> (\<exists>j. j < length detections
                    \<and> items (positions trk') = (if mh = 0 then [] else [det_bbox (detections ! j)]))))"
proof -
  have inv: "tracker_inv s" unfolding assms(1) by (intro tracker_inv_updates tracker_inv_init)
  have mh: "max_history s = mh" unfolding assms(1) by (simp add: updates_fields VehicleTracker_def)
  have inv': "tracker_inv s'" unfolding assms(2) using inv by (rule tracker_inv_update)
  have mh': "max_history s' = mh" unfolding assms(2) using mh by (simp add: update_fields)
  have all: "list_all (\<lambda>(tid, trk). maxlen (positions trk) = mh \<and> length (items (positions trk)) \<le> mh)
           (tracks s)"
    using inv mh by (auto simp: tracker_inv_def list_all_iff track_ok_def)
  have ok: "maxlen (positions t) = mh \<and> length (items (positions t)) \<le> mh"
    if "map_of (tracks s) k = Some t" for k t
    using all map_of_SomeD[OF that] by (auto simp: list_all_iff)
  have ok': "maxlen (positions trk') = mh \<and> length (items (positions trk')) \<le> mh"
    using inv' mh' map_of_SomeD[OF assms(3)] by (auto simp: tracker_inv_def list_all_iff track_ok_def)
  from update_effect[OF inv assms(3)[unfolded assms(2)]]
  have "map_of (tracks s) tid = Some trk'
          \<or> (\<exists>trk j. map_of (tracks s) tid = Some trk \<and> j < length detections
                \<and> items (positions trk') =
                    (if length (items (positions trk)) = mh
                     then tl (items (positions trk)) else items (positions trk))
                    @ [det_bbox (detections ! j)])
          \<or> (map_of (tracks s) tid = None
              \<and> (\<exists>j. j < length detections
                    \<and> items (positions trk') = (if mh = 0 then [] else [det_bbox (detections ! j)])))"
  proof (elim disjE exE conjE)
    assume "map_of (tracks s) tid = Some trk'"
    then show ?thesis by simp
  next
    fix t j
    assume a: "map_of (tracks s) tid = Some t" "items (positions t) \<noteq> []" "j < length detections"
      "trk' = appended t (detections ! j) now"
    from ok[OF a(1)] have "maxlen (positions t) = mh" "length (items (positions t)) \<le> maxlen (positions t)"
      by simp_all
    with items_appended[OF a(2), of "detections ! j" now] a show ?thesis by auto
  next
    fix j
    assume a: "map_of (tracks s) tid = None" "j < length detections"
      "trk' = new_track s (detections ! j) now"
    then show ?thesis using mh by (auto simp: new_track_def deque_init_single)
  qed
  with all ok' show ?thesis by simp
qed

text \<open>
  Capacity 3 and four frames with boxes at 100, 90, 80 and 70: the history is full after
  the third frame and the fourth call turns it into 90, 80, 70.
\<close>

theorem history_bounded_fifo_witness:
  "tracks (updates (VehicleTracker 3)
      [([\<lparr> det_bbox = (100, 300, 60, 200), det_confidence = 3 / 4, det_class_id = 2 \<rparr>], 0),
       ([\<lparr> det_bbox = (90, 300, 60, 200), det_confidence = 3 / 4, det_class_id = 2 \<rparr>], 1 / 8),
       ([\<lparr> det_bbox = (80, 300, 60, 200), det_confidence = 3 / 4, det_class_id = 2 \<rparr>], 1 / 4)])
     = [(0, \<lparr> positions = Deque 3 [(100, 300, 60, 200), (90, 300, 60, 200), (80, 300, 60, 200)],
              last_seen = 1 / 4, track_class = 2, track_confidence = 3 / 4 \<rparr>)]
   \<and> tracks (fst (update (updates (VehicleTracker 3)
      [([\<lparr> det_bbox = (100, 300, 60, 200), det_confidence = 3 / 4, det_class_id = 2 \<rparr>], 0),
       ([\<lparr> det_bbox = (90, 300, 60, 200), det_confidence = 3 / 4, det_class_id = 2 \<rparr>], 1 / 8),
       ([\<lparr> det_bbox = (80, 300, 60, 200), det_confidence = 3 / 4, det_class_id = 2 \<rparr>], 1 / 4)])
      [\<lparr> det_bbox = (70, 300, 60, 200), det_confidence = 7 / 8, det_class_id = 2 \<rparr>] (3 / 8)))
     = [(0, \<lparr> positions = Deque 3 [(90, 300, 60, 200), (80, 300, 60, 200), (70, 300, 60, 200)],
              last_seen = 3 / 8, track_class = 2, track_confidence = 7 / 8 \<rparr>)]
   \<and> (\<exists>trk j. map_of (tracks (updates (VehicleTracker 3)
      [([\<lparr> det_bbox = (100, 300, 60, 200), det_confidence = 3 / 4, det_class_id = 2 \<rparr>], 0),
       ([\<lparr> det_bbox = (90, 300, 60, 200), det_confidence = 3 / 4, det_class_id = 2 \<rparr>], 1 / 8),
       ([\<lparr> det_bbox = (80, 300, 60, 200), det_confidence = 3 / 4, det_class_id = 2 \<rparr>], 1 / 4)])) 0
          = Some trk
        \<and> j < length [\<lparr> det_bbox = (70, 300, 60, 200), det_confidence = 7 / 8, det_class_id = 2 \<rparr>]
        \<and> [(90, 300, 60, 200), (80, 300, 60, 200), (70, 300, 60, 200)] =
            (if length (items (positions trk)) = 3
             then tl (items (positions trk)) else items (positions trk))
            @ [det_bbox ([\<lparr> det_bbox = (70, 300, 60, 200), det_confidence = 7 / 8, det_class_id = 2 \<rparr>] ! j)])"
proof -
  let ?calls = "[([\<lparr> det_bbox = (100, 300, 60, 200), det_confidence = 3 / 4, det_class_id = 2 \<rparr>], 0 :: rat),
       ([\<lparr> det_bbox = (90, 300, 60, 200), det_confidence = 3 / 4, det_class_id = 2 \<rparr>], 1 / 8),
       ([\<lparr> det_bbox = (80, 300, 60, 200), det_confidence = 3 / 4, det_class_id = 2 \<rparr>], 1 / 4)]"
  let ?d = "\<lparr> det_bbox = (70, 300, 60, 200), det_confidence = 7 / 8, det_class_id = 2 \<rparr>"
  let ?t = "\<lparr> positions = Deque 3 [(100, 300, 60, 200), (90, 300, 60, 200), (80, 300, 60, 200)],
              last_seen = 1 / 4, track_class = 2, track_confidence = 3 / 4 \<rparr>"
  let ?t' = "\<lparr> positions = Deque 3 [(90, 300, 60, 200), (80, 300, 60, 200), (70, 300, 60, 200)],
              last_seen = 3 / 8, track_class = 2, track_confidence = 7 / 8 \<rparr>"
  have run: "tracks (updates (VehicleTracker 3) ?calls) = [(0, ?t)]"
    by (simp add: update_def VehicleTracker_def create_track_def update_track_def deque_init_def
        deque_append_def Let_def)
  have run': "tracks (fst (update (updates (VehicleTracker 3) ?calls) [?d] (3 / 8))) = [(0, ?t')]"
    by (simp add: update_def VehicleTracker_def create_track_def update_track_def deque_init_def
        deque_append_def Let_def)
  have m: "map_of (tracks (fst (update (updates (VehicleTracker 3) ?calls) [?d] (3 / 8)))) 0 = Some ?t'"
    unfolding run' by simp
  from history_bounded_fifo [OF refl refl m] run run'
  show ?thesis by simp
qed

text \<open>
  C6. In a call of \<open>update\<close>, a detection (at index \<open>i\<close> of the list) whose centre is at
  Euclidean distance 100 or more (the squared distance is at least \<open>100 * 100\<close>) from
  the last bbox centre of every track with a history is not in the matched set that the
  loop over the tracks builds, and the call stores a new track for it: one entry of
  history, the time of the call, the class and confidence of the detection, under an
  identifier taken from \<open>next_id\<close>. The list of detections may hold this one alone.
\<close>
theorem far_detection_starts_new_track:
  assumes "i < length detections"
    and "\<forall>(tid, trk) \<in> set (tracks s). items (positions trk) \<noteq> [] \<longrightarrow>
           100 * 100 \<le> norm_sq (center (last (items (positions trk))))
                              (center (det_bbox (detections ! i)))"
  shows "i \<notin> snd (match_tracks (tracks s) detections now (s, {}))
         \<and> (\<exists>k. next_id s \<le> k \<and> k < next_id (fst (update s detections now))
                \<and> map_of (tracks (fst (update s detections now))) k
                    = Some \<lparr> positions = deque_init [det_bbox (detections ! i)] (max_history s),
                             last_seen = now,
                             track_class = det_class_id (detections ! i),
                             track_confidence = det_confidence (detections ! i) \<rparr>)"
proof -
  obtain s1 M where m: "match_tracks (tracks s) detections now (s, {}) = (s1, M)"
    by (cases "match_tracks (tracks s) detections now (s, {})")
  have notin: "i \<notin> M"
  proof
    assume "i \<in> M"
    from match_tracks_matched[OF m this] assms(2) show False by fastforce
  qed
  have mem: "(i, detections ! i) \<in> set (enumerate 0 detections)"
    using assms(1) by (simp add: in_set_enumerate_eq)
  have ne: "detections \<noteq> []" using assms(1) by auto
  have "\<exists>k. next_id s \<le> k \<and> k < next_id (fst (update s detections now))
                \<and> map_of (tracks (fst (update s detections now))) k
                    = Some (new_track s (detections ! i) now)"
  proof (cases rule: update_cases[where s=s and dets=detections and now=now])
    case empty
    with ne show ?thesis by simp
  next
    case fresh
    then show ?thesis
      using create_unmatched_creates[OF mem, of "{}" s now] by simp
  next
    case (matching s1' M')
    with m have eq: "s1' = s1" "M' = M" by simp_all
    have f: "next_id s1 = next_id s" "max_history s1 = max_history s"
      using match_tracks_fields[OF m] by simp_all
    show ?thesis
      using create_unmatched_creates[OF mem notin, of s1 now] matching(4) eq f
      by (simp add: new_track_cong[of s1 s])
  qed
  then show ?thesis using notin m by (simp add: new_track_def)
qed

text \<open>
  One track whose last box is centred at \<open>(130, 400)\<close>, and a single detection centred
  at \<open>(430, 400)\<close>, 300 pixels away: the track is left as it was and the detection
  becomes track 1.
\<close>

theorem far_detection_starts_new_track_witness:
  "norm_sq (center (100, 300, 60, 200)) (center (400, 300, 60, 200)) = 300 * 300
   \<and> 0 \<notin> snd (match_tracks
        [(0, \<lparr> positions = Deque 10 [(100, 300, 60, 200)], last_seen = 0,
               track_class = 2, track_confidence = 3 / 4 \<rparr>)]
        [\<lparr> det_bbox = (400, 300, 60, 200), det_confidence = 7 / 8, det_class_id = 3 \<rparr>] (1 / 2)
        (\<lparr> tracks = [(0, \<lparr> positions = Deque 10 [(100, 300, 60, 200)], last_seen = 0,
                            track_class = 2, track_confidence = 3 / 4 \<rparr>)],
            next_id = 1, max_history = 10, max_disappeared = 1 \<rparr>, {}))
   \<and> tracks (fst (update
        \<lparr> tracks = [(0, \<lparr> positions = Deque 10 [(100, 300, 60, 200)], last_seen = 0,
                           track_class = 2, track_confidence = 3 / 4 \<rparr>)],
           next_id = 1, max_history = 10, max_disappeared = 1 \<rparr>
        [\<lparr> det_bbox = (400, 300, 60, 200), det_confidence = 7 / 8, det_class_id = 3 \<rparr>] (1 / 2)))
      = [(0, \<lparr> positions = Deque 10 [(100, 300, 60, 200)], last_seen = 0,
               track_class = 2, track_confidence = 3 / 4 \<rparr>),
         (1, \<lparr> positions = Deque 10 [(400, 300, 60, 200)], last_seen = 1 / 2,
               track_class = 3, track_confidence = 7 / 8 \<rparr>)]
   \<and> (\<exists>k. 1 \<le> k \<and> k < 2
        \<and> map_of (tracks (fst (update
              \<lparr> tracks = [(0, \<lparr> positions = Deque 10 [(100, 300, 60, 200)], last_seen = 0,
                                 track_class = 2, track_confidence = 3 / 4 \<rparr>)],
                 next_id = 1, max_history = 10, max_disappeared = 1 \<rparr>
              [\<lparr> det_bbox = (400, 300, 60, 200), det_confidence = 7 / 8, det_class_id = 3 \<rparr>]
              (1 / 2)))) k
          = Some \<lparr> positions = Deque 10 [(400, 300, 60, 200)], last_seen = 1 / 2,
                   track_class = 3, track_confidence = 7 / 8 \<rparr>)"
proof -
  let ?s = "\<lparr> tracks = [(0, \<lparr> positions = Deque 10 [(100, 300, 60, 200)], last_seen = 0,
                           track_class = 2, track_confidence = 3 / 4 \<rparr>)],
           next_id = 1, max_history = 10, max_disappeared = 1 \<rparr>"
  let ?d = "\<lparr> det_bbox = (400, 300, 60, 200), det_confidence = 7 / 8, det_class_id = 3 \<rparr>"
  have h1: "0 < length [?d]" by simp
  have h2: "\<forall>(tid, trk) \<in> set (tracks ?s). items (positions trk) \<noteq> [] \<longrightarrow>
           100 * 100 \<le> norm_sq (center (last (items (positions trk))))
                              (center (det_bbox ([?d] ! 0)))"
    by simp
  have run: "tracks (fst (update ?s [?d] (1 / 2)))
      = [(0, \<lparr> positions = Deque 10 [(100, 300, 60, 200)], last_seen = 0,
               track_class = 2, track_confidence = 3 / 4 \<rparr>),
         (1, \<lparr> positions = Deque 10 [(400, 300, 60, 200)], last_seen = 1 / 2,
               track_class = 3, track_confidence = 7 / 8 \<rparr>)]"
    by (simp add: update_def create_track_def deque_init_def deque_append_def Let_def)
  have nid: "next_id (fst (update ?s [?d] (1 / 2))) = 2"
    by (simp add: update_def create_track_def deque_init_def deque_append_def Let_def)
  from far_detection_starts_new_track [OF h1 h2, of "1 / 2"] run nid
  show ?thesis
    by (simp add: deque_init_def deque_append_def Let_def)
qed

subsection \<open>Frames and alerts\<close>

text \<open>The definitions that a run on concrete frames unfolds.\<close>

lemmas eval_defs = process_side_view_def trigger_warnings_def AdvancedBlindSpotDetection_def
  update_def VehicleTracker_def create_track_def update_track_def deque_init_def deque_append_def
  get_tracked_vehicles_def tracked_entry_def classify_threat_def zone_800_600_left
  lane_thresholds_800 analyze_distance_def Let_def

lemma trigger_warnings_cases:
  "trigger_warnings d sd t c w =
     (if (c \<or> w) \<and> warning_cooldown d < t - last_warning_time d sd
      then (d\<lparr> last_warning_time := (last_warning_time d)(sd := t) \<rparr>,
            Some (if c then CRITICAL else WARNING))
      else (d, None))"
  by (auto simp: trigger_warnings_def)

lemma process_side_view_alert:
  assumes "process_side_view d dets t fr sd z = (d', Inr (c, w, a))"
  shows "a = (if (c \<or> w) \<and> warning_cooldown d < t - last_warning_time d sd
              then Some (if c then CRITICAL else WARNING) else None)"
    and "last_warning_time d' =
           (if a = None then last_warning_time d else (last_warning_time d)(sd := t))"
    and "warning_cooldown d' = warning_cooldown d"
  using assms
  by (auto simp: process_side_view_def trigger_warnings_cases Let_def
           split: prod.splits sum.splits if_splits)

text \<open>
  C4, as stated, fails on the boundary. An alert fires at time 1000 on the left side; the
  next frame, at time 1001.5, again has a critical and a warning vehicle, and the
  cooldown of 1.5 has elapsed in full since the last alert: no alert fires.
\<close>

theorem alert_rate_limit_counterexample:
  "snd (process_side_view AdvancedBlindSpotDetection
          [\<lparr> det_bbox = (100, 300, 60, 200), det_confidence = 3 / 4, det_class_id = 2 \<rparr>,
           \<lparr> det_bbox = (370, 300, 60, 200), det_confidence = 7 / 8, det_class_id = 3 \<rparr>]
          1000 () Left (AdaptiveBlindSpotZone 800 600 Left))
     = Inr (True, True, Some CRITICAL)
   \<and> last_warning_time (fst (process_side_view AdvancedBlindSpotDetection
          [\<lparr> det_bbox = (100, 300, 60, 200), det_confidence = 3 / 4, det_class_id = 2 \<rparr>,
           \<lparr> det_bbox = (370, 300, 60, 200), det_confidence = 7 / 8, det_class_id = 3 \<rparr>]
          1000 () Left (AdaptiveBlindSpotZone 800 600 Left))) Left = 1000
   \<and> warning_cooldown (fst (process_side_view AdvancedBlindSpotDetection
          [\<lparr> det_bbox = (100, 300, 60, 200), det_confidence = 3 / 4, det_class_id = 2 \<rparr>,
           \<lparr> det_bbox = (370, 300, 60, 200), det_confidence = 7 / 8, det_class_id = 3 \<rparr>]
          1000 () Left (AdaptiveBlindSpotZone 800 600 Left))) \<le> 2003 / 2 - 1000
   \<and> snd (process_side_view
          (fst (process_side_view AdvancedBlindSpotDetection
            [\<lparr> det_bbox = (100, 300, 60, 200), det_confidence = 3 / 4, det_class_id = 2 \<rparr>,
             \<lparr> det_bbox = (370, 300, 60, 200), det_confidence = 7 / 8, det_class_id = 3 \<rparr>]
            1000 () Left (AdaptiveBlindSpotZone 800 600 Left)))
          [\<lparr> det_bbox = (100, 300, 60, 200), det_confidence = 3 / 4, det_class_id = 2 \<rparr>,
           \<lparr> det_bbox = (370, 300, 60, 200), det_confidence = 7 / 8, det_class_id = 3 \<rparr>]
          (2003 / 2) () Left (AdaptiveBlindSpotZone 800 600 Left))
     = Inr (True, True, None)"
  by (simp add: eval_defs)

text \<open>
  C4, amended. Take two consecutive frames of one side that return normally, with
  flags \<open>c\<close> (critical detected) and \<open>w\<close> (warning detected) and alert \<open>a\<close>. A frame
  fires an alert exactly when \<open>c\<close> or \<open>w\<close> holds and strictly more than the cooldown
  has elapsed since the last alert time of that side; the alert is \<open>CRITICAL\<close> when \<open>c\<close>
  holds, also when \<open>w\<close> holds too, and \<open>WARNING\<close> otherwise. Firing sets the last
  alert time of that side to the time of the frame; nothing else changes the alert
  times, and the other side's time is never written. Hence two consecutive frames at
  most the cooldown apart fire at most one alert, and a later frame, more than the
  cooldown after the last alert, fires again.
\<close>

theorem alert_rate_limit:
  assumes "process_side_view d dets1 t1 fr1 sd z1 = (d1, Inr (c1, w1, a1))"
    and "process_side_view d1 dets2 t2 fr2 sd z2 = (d2, Inr (c2, w2, a2))"
  shows "a1 = (if (c1 \<or> w1) \<and> warning_cooldown d < t1 - last_warning_time d sd
               then Some (if c1 then CRITICAL else WARNING) else None)
       \<and> last_warning_time d1 =
           (if a1 = None then last_warning_time d else (last_warning_time d)(sd := t1))
       \<and> warning_cooldown d1 = warning_cooldown d
       \<and> (t2 - t1 \<le> warning_cooldown d \<longrightarrow> a1 = None \<or> a2 = None)
       \<and> ((c2 \<or> w2) \<and> warning_cooldown d < t2 - last_warning_time d1 sd
            \<longrightarrow> a2 = Some (if c2 then CRITICAL else WARNING))"
proof -
  note p1 = process_side_view_alert[OF assms(1)]
  note p2 = process_side_view_alert[OF assms(2)]
  have "a1 = None \<or> a2 = None" if "t2 - t1 \<le> warning_cooldown d"
  proof (cases a1)
    case None
    then show ?thesis by simp
  next
    case (Some x)
    then have "last_warning_time d1 sd = t1" using p1(2) by simp
    then have "\<not> warning_cooldown d1 < t2 - last_warning_time d1 sd"
      using that p1(3) by simp
    then show ?thesis using p2(1) by simp
  qed
  moreover have "a2 = Some (if c2 then CRITICAL else WARNING)"
    if "(c2 \<or> w2) \<and> warning_cooldown d < t2 - last_warning_time d1 sd"
    using that p2(1) p1(3) by simp
  ultimately show ?thesis using p1 by blast
qed

text \<open>
  Three frames with one critical vehicle on the left side, at times 1000, 1001 and 1002,
  from the initial detector: the first fires, the second does not and leaves the alert
  time at 1000, the third fires again; the right side's time stays 0.
\<close>

theorem alert_rate_limit_witness:
  "snd (process_side_view AdvancedBlindSpotDetection
          [\<lparr> det_bbox = (100, 300, 60, 200), det_confidence = 3 / 4, det_class_id = 2 \<rparr>]
          1000 () Left (AdaptiveBlindSpotZone 800 600 Left))
     = Inr (True, False, Some CRITICAL)
   \<and> snd (process_side_view
          (fst (process_side_view AdvancedBlindSpotDetection
            [\<lparr> det_bbox = (100, 300, 60, 200), det_confidence = 3 / 4, det_class_id = 2 \<rparr>]
            1000 () Left (AdaptiveBlindSpotZone 800 600 Left)))
          [\<lparr> det_bbox = (100, 300, 60, 200), det_confidence = 3 / 4, det_class_id = 2 \<rparr>]
          1001 () Left (AdaptiveBlindSpotZone 800 600 Left))
     = Inr (True, False, None)
   \<and> snd (process_side_view
          (fst (process_side_view
            (fst (process_side_view AdvancedBlindSpotDetection
              [\<lparr> det_bbox = (100, 300, 60, 200), det_confidence = 3 / 4, det_class_id = 2 \<rparr>]
              1000 () Left (AdaptiveBlindSpotZone 800 600 Left)))
            [\<lparr> det_bbox = (100, 300, 60, 200), det_confidence = 3 / 4, det_class_id = 2 \<rparr>]
            1001 () Left (AdaptiveBlindSpotZone 800 600 Left)))
          [\<lparr> det_bbox = (100, 300, 60, 200), det_confidence = 3 / 4, det_class_id = 2 \<rparr>]
          1002 () Left (AdaptiveBlindSpotZone 800 600 Left))
     = Inr (True, False, Some CRITICAL)
   \<and> last_warning_time (fst (process_side_view
          (fst (process_side_view AdvancedBlindSpotDetection
            [\<lparr> det_bbox = (100, 300, 60, 200), det_confidence = 3 / 4, det_class_id = 2 \<rparr>]
            1000 () Left (AdaptiveBlindSpotZone 800 600 Left)))
          [\<lparr> det_bbox = (100, 300, 60, 200), det_confidence = 3 / 4, det_class_id = 2 \<rparr>]
          1001 () Left (AdaptiveBlindSpotZone 800 600 Left))) Left = 1000
   \<and> last_warning_time (fst (process_side_view
          (fst (process_side_view AdvancedBlindSpotDetection
            [\<lparr> det_bbox = (100, 300, 60, 200), det_confidence = 3 / 4, det_class_id = 2 \<rparr>]
            1000 () Left (AdaptiveBlindSpotZone 800 600 Left)))
          [\<lparr> det_bbox = (100, 300, 60, 200), det_confidence = 3 / 4, det_class_id = 2 \<rparr>]
          1001 () Left (AdaptiveBlindSpotZone 800 600 Left))) Right = 0"
proof -
  let ?z = "AdaptiveBlindSpotZone 800 600 Left"
  let ?dets = "[\<lparr> det_bbox = (100, 300, 60, 200), det_confidence = 3 / 4, det_class_id = 2 \<rparr>]"
  let ?p1 = "process_side_view AdvancedBlindSpotDetection ?dets 1000 () Left ?z"
  let ?p2 = "process_side_view (fst ?p1) ?dets 1001 () Left ?z"
  let ?p3 = "process_side_view (fst ?p2) ?dets 1002 () Left ?z"
  have c: "warning_cooldown AdvancedBlindSpotDetection = 3 / 2"
    and l: "last_warning_time AdvancedBlindSpotDetection = (\<lambda>sd. 0)"
    by (simp_all add: AdvancedBlindSpotDetection_def)
  have "\<exists>a. snd ?p1 = Inr (True, False, a)"
    by (simp add: eval_defs)
  then obtain a1 where f1: "?p1 = (fst ?p1, Inr (True, False, a1))"
    by (metis prod.collapse)
  have "\<exists>a. snd ?p2 = Inr (True, False, a)"
    by (simp add: eval_defs)
  then obtain a2 where f2: "?p2 = (fst ?p2, Inr (True, False, a2))"
    by (metis prod.collapse)
  have "\<exists>a. snd ?p3 = Inr (True, False, a)"
    by (simp add: eval_defs)
  then obtain a3 where f3: "?p3 = (fst ?p3, Inr (True, False, a3))"
    by (metis prod.collapse)
  note r12 = alert_rate_limit [OF f1 f2]
  note r23 = alert_rate_limit [OF f2 f3]
  have a1: "a1 = Some CRITICAL" using r12 c l by simp
  have l1: "last_warning_time (fst ?p1) = (\<lambda>sd. 0)(Left := 1000)" using r12 a1 l by simp
  have c1: "warning_cooldown (fst ?p1) = 3 / 2" using r12 c by simp
  have a2: "a2 = None" using r12 a1 c by simp
  have l2: "last_warning_time (fst ?p2) = (\<lambda>sd. 0)(Left := 1000)" using r23 a2 l1 by simp
  have a3: "a3 = Some CRITICAL" using r23 c1 l2 by simp
  show ?thesis
    using f1 f2 f3 a1 a2 a3 l2 by (metis (no_types, lifting) snd_conv fun_upd_same fun_upd_other side.distinct(1))
qed

text \<open>
  C3, as stated, fails at frame 1. The new track has velocity \<open>(0, 0)\<close>, which the motion
  rule reads as parallel motion: centred at 130 in the critical band, the vehicle is
  classified \<open>critical\<close> with the reason \<open>Parallel in blind spot\<close>, the frame reports
  \<open>critical_detected\<close>, and from the initial detector the alert fires. No rule waits for a
  second history entry.
\<close>

theorem end_to_end_counterexample:
  "update (VehicleTracker 10)
      [\<lparr> det_bbox = (100, 300, 60, 200), det_confidence = 3 / 4, det_class_id = 2 \<rparr>] 1000
     = (\<lparr> tracks = [(0, \<lparr> positions = Deque 10 [(100, 300, 60, 200)], last_seen = 1000,
                          track_class = 2, track_confidence = 3 / 4 \<rparr>)],
          next_id = 1, max_history = 10, max_disappeared = 1 \<rparr>,
        Inr [\<lparr> veh_id = 0, veh_bbox = (100, 300, 60, 200), veh_class = 2, velocity = (0, 0),
               history_length = 1, veh_positions = None \<rparr>])
   \<and> classify_threat (AdaptiveBlindSpotZone 800 600 Left)
        \<lparr> veh_id = 0, veh_bbox = (100, 300, 60, 200), veh_class = 2, velocity = (0, 0),
          history_length = 1, veh_positions = None \<rparr> ()
       = Inr (Critical, ''Parallel in blind spot'')
   \<and> snd (process_side_view AdvancedBlindSpotDetection
          [\<lparr> det_bbox = (100, 300, 60, 200), det_confidence = 3 / 4, det_class_id = 2 \<rparr>]
          1000 () Left (AdaptiveBlindSpotZone 800 600 Left))
       = Inr (True, False, Some CRITICAL)"
  by (simp add: eval_defs)

text \<open>
  C3, amended. Left side, frame 800 by 600, any timestamps, confidences and classes.
  Frame 1 with the box \<open>[100, 300, 60, 200]\<close> creates track 0 with velocity \<open>(0, 0)\<close>,
  classified \<open>critical\<close> with the reason \<open>Parallel in blind spot\<close>. Frame 2 with the
  box \<open>[70, 300, 60, 200]\<close> is matched to track 0, whose velocity becomes \<open>(-30, 0)\<close>;
  the classification is \<open>critical\<close> with the reason \<open>Fast approach in blind spot\<close>.
  Both frames report \<open>critical_detected = True\<close> and \<open>warning_detected = False\<close>.
\<close>

theorem end_to_end_scenario:
  "update (VehicleTracker 10)
      [\<lparr> det_bbox = (100, 300, 60, 200), det_confidence = q1, det_class_id = k1 \<rparr>] t1
     = (\<lparr> tracks = [(0, \<lparr> positions = Deque 10 [(100, 300, 60, 200)], last_seen = t1,
                          track_class = k1, track_confidence = q1 \<rparr>)],
          next_id = 1, max_history = 10, max_disappeared = 1 \<rparr>,
        Inr [\<lparr> veh_id = 0, veh_bbox = (100, 300, 60, 200), veh_class = k1, velocity = (0, 0),
               history_length = 1, veh_positions = None \<rparr>])
   \<and> classify_threat (AdaptiveBlindSpotZone 800 600 Left)
        \<lparr> veh_id = 0, veh_bbox = (100, 300, 60, 200), veh_class = k1, velocity = (0, 0),
          history_length = 1, veh_positions = None \<rparr> frame
       = Inr (Critical, ''Parallel in blind spot'')
   \<and> update \<lparr> tracks = [(0, \<lparr> positions = Deque 10 [(100, 300, 60, 200)], last_seen = t1,
                                track_class = k1, track_confidence = q1 \<rparr>)],
                next_id = 1, max_history = 10, max_disappeared = 1 \<rparr>
      [\<lparr> det_bbox = (70, 300, 60, 200), det_confidence = q2, det_class_id = k2 \<rparr>] t2
     = (\<lparr> tracks = [(0, \<lparr> positions = Deque 10 [(100, 300, 60, 200), (70, 300, 60, 200)],
                          last_seen = t2, track_class = k1, track_confidence = q2 \<rparr>)],
          next_id = 1, max_history = 10, max_disappeared = 1 \<rparr>,
        Inr [\<lparr> veh_id = 0, veh_bbox = (70, 300, 60, 200), veh_class = k1, velocity = (- 30, 0),
               history_length = 2,
               veh_positions = Some [(100, 300, 60, 200), (70, 300, 60, 200)] \<rparr>])
   \<and> classify_threat (AdaptiveBlindSpotZone 800 600 Left)
        \<lparr> veh_id = 0, veh_bbox = (70, 300, 60, 200), veh_class = k1, velocity = (- 30, 0),
          history_length = 2,
          veh_positions = Some [(100, 300, 60, 200), (70, 300, 60, 200)] \<rparr> frame
       = Inr (Critical, ''Fast approach in blind spot'')
   \<and> (\<exists>a. snd (process_side_view AdvancedBlindSpotDetection
          [\<lparr> det_bbox = (100, 300, 60, 200), det_confidence = q1, det_class_id = k1 \<rparr>]
          t1 frame Left (AdaptiveBlindSpotZone 800 600 Left))
        = Inr (True, False, a))
   \<and> (\<exists>a. snd (process_side_view
          (fst (process_side_view AdvancedBlindSpotDetection
            [\<lparr> det_bbox = (100, 300, 60, 200), det_confidence = q1, det_class_id = k1 \<rparr>]
            t1 frame Left (AdaptiveBlindSpotZone 800 600 Left)))
          [\<lparr> det_bbox = (70, 300, 60, 200), det_confidence = q2, det_class_id = k2 \<rparr>]
          t2 frame Left (AdaptiveBlindSpotZone 800 600 Left))
        = Inr (True, False, a))"
proof -
  let ?z = "AdaptiveBlindSpotZone 800 600 Left"
  let ?d1 = "\<lparr> det_bbox = (100, 300, 60, 200), det_confidence = q1, det_class_id = k1 \<rparr>"
  let ?d2 = "\<lparr> det_bbox = (70, 300, 60, 200), det_confidence = q2, det_class_id = k2 \<rparr>"
  let ?s1 = "\<lparr> tracks = [(0, \<lparr> positions = Deque 10 [(100, 300, 60, 200)], last_seen = t1,
                          track_class = k1, track_confidence = q1 \<rparr>)],
          next_id = 1, max_history = 10, max_disappeared = 1 \<rparr>"
  let ?v1 = "\<lparr> veh_id = 0, veh_bbox = (100, 300, 60, 200), veh_class = k1, velocity = (0, 0),
               history_length = 1, veh_positions = None \<rparr>"
  let ?s2 = "\<lparr> tracks = [(0, \<lparr> positions = Deque 10 [(100, 300, 60, 200), (70, 300, 60, 200)],
                          last_seen = t2, track_class = k1, track_confidence = q2 \<rparr>)],
          next_id = 1, max_history = 10, max_disappeared = 1 \<rparr>"
  let ?v2 = "\<lparr> veh_id = 0, veh_bbox = (70, 300, 60, 200), veh_class = k1, velocity = (- 30, 0),
               history_length = 2,
               veh_positions = Some [(100, 300, 60, 200), (70, 300, 60, 200)] \<rparr>"
  have u1: "update (VehicleTracker 10) [?d1] t1 = (?s1, Inr [?v1])"
    by (simp add: update_def VehicleTracker_def create_track_def deque_init_def deque_append_def
          get_tracked_vehicles_def tracked_entry_def Let_def)
  have c1: "classify_threat ?z ?v1 frame = Inr (Critical, ''Parallel in blind spot'')"
    by (simp add: classify_threat_def zone_800_600_left lane_thresholds_800 analyze_distance_def)
  have u2: "update ?s1 [?d2] t2 = (?s2, Inr [?v2])"
    by (simp add: update_def update_track_def deque_append_def get_tracked_vehicles_def
          tracked_entry_def Let_def)
  have c2: "classify_threat ?z ?v2 frame = Inr (Critical, ''Fast approach in blind spot'')"
    by (simp add: classify_threat_def zone_800_600_left lane_thresholds_800 analyze_distance_def)
  have tr: "trackers AdvancedBlindSpotDetection Left = VehicleTracker 10"
    by (simp add: AdvancedBlindSpotDetection_def)
  obtain d' a' where tw1: "trigger_warnings
      (AdvancedBlindSpotDetection\<lparr> trackers := (trackers AdvancedBlindSpotDetection)(Left := ?s1) \<rparr>)
      Left t1 True False = (d', a')"
    and td: "trackers d' Left = ?s1"
    by (cases "3 / 2 < t1") (auto simp: trigger_warnings_def AdvancedBlindSpotDetection_def)
  have p1: "process_side_view AdvancedBlindSpotDetection [?d1] t1 frame Left ?z
              = (d', Inr (True, False, a'))"
    unfolding process_side_view_def tr u1 using c1 tw1 by (simp add: Let_def)
  obtain d'' a'' where tw2: "trigger_warnings (d'\<lparr> trackers := (trackers d')(Left := ?s2) \<rparr>)
      Left t2 True False = (d'', a'')"
    by (cases "trigger_warnings (d'\<lparr> trackers := (trackers d')(Left := ?s2) \<rparr>) Left t2 True False")
  have p2: "process_side_view d' [?d2] t2 frame Left ?z = (d'', Inr (True, False, a''))"
    unfolding process_side_view_def td u2 using c2 tw2 by (simp add: Let_def)
  show ?thesis
    using u1 c1 u2 c2 p1 p2 by (simp del: One_nat_def)
qed

text \<open>
  The two frames 1/32 of a second apart, from time 1000: the second frame is critical
  and, inside the cooldown of the alert fired at frame 1, fires none.
\<close>

theorem end_to_end_scenario_witness:
  "snd (update (VehicleTracker 10)
      [\<lparr> det_bbox = (100, 300, 60, 200), det_confidence = 3 / 4, det_class_id = 2 \<rparr>] 1000)
     = Inr [\<lparr> veh_id = 0, veh_bbox = (100, 300, 60, 200), veh_class = 2, velocity = (0, 0),
               history_length = 1, veh_positions = None \<rparr>]
   \<and> snd (update (fst (update (VehicleTracker 10)
      [\<lparr> det_bbox = (100, 300, 60, 200), det_confidence = 3 / 4, det_class_id = 2 \<rparr>] 1000))
      [\<lparr> det_bbox = (70, 300, 60, 200), det_confidence = 7 / 8, det_class_id = 2 \<rparr>] (32001 / 32))
     = Inr [\<lparr> veh_id = 0, veh_bbox = (70, 300, 60, 200), veh_class = 2, velocity = (- 30, 0),
               history_length = 2,
               veh_positions = Some [(100, 300, 60, 200), (70, 300, 60, 200)] \<rparr>]
   \<and> classify_threat (AdaptiveBlindSpotZone 800 600 Left)
        \<lparr> veh_id = 0, veh_bbox = (70, 300, 60, 200), veh_class = 2, velocity = (- 30, 0),
          history_length = 2,
          veh_positions = Some [(100, 300, 60, 200), (70, 300, 60, 200)] \<rparr> ()
       = Inr (Critical, ''Fast approach in blind spot'')
   \<and> snd (process_side_view
          (fst (process_side_view AdvancedBlindSpotDetection
            [\<lparr> det_bbox = (100, 300, 60, 200), det_confidence = 3 / 4, det_class_id = 2 \<rparr>]
            1000 () Left (AdaptiveBlindSpotZone 800 600 Left)))
          [\<lparr> det_bbox = (70, 300, 60, 200), det_confidence = 7 / 8, det_class_id = 2 \<rparr>]
          (32001 / 32) () Left (AdaptiveBlindSpotZone 800 600 Left))
        = Inr (True, False, None)"
proof -
  note e = end_to_end_scenario [where ?q1.0 = "3 / 4" and ?k1.0 = 2 and ?t1.0 = 1000
      and ?q2.0 = "7 / 8" and ?k2.0 = 2 and ?t2.0 = "32001 / 32" and frame = "()"]
  have p: "snd (process_side_view
          (fst (process_side_view AdvancedBlindSpotDetection
            [\<lparr> det_bbox = (100, 300, 60, 200), det_confidence = 3 / 4, det_class_id = 2 \<rparr>]
            1000 () Left (AdaptiveBlindSpotZone 800 600 Left)))
          [\<lparr> det_bbox = (70, 300, 60, 200), det_confidence = 7 / 8, det_class_id = 2 \<rparr>]
          (32001 / 32) () Left (AdaptiveBlindSpotZone 800 600 Left))
        = Inr (True, False, None)"
    by (simp add: eval_defs)
  from e p show ?thesis by simp
qed

end
